theory Spec2Isabelle
  imports Complex_Main "HOL-Library.Word" "HOL-Library.Signed_Division"
begin

section \<open>Quota engine: gas costs (vm/quota/quota.go)\<close>

type_synonym u64 = "64 word"

type_synonym byte = "8 word"

text \<open>
  Errors and panics of the modelled code as values. \<open>ErrOther\<close> stands for any error
  value other than \<open>ErrOutOfQuota\<close> that a caller passes to \<open>CalcQuotaUsed\<close>.
\<close>

datatype error =
    ErrOutOfQuota
  | errGasUintOverflow
  | ErrOther
  | PanicIndexOutOfRange
  | PanicNilDereference

text \<open>
  The gas constants \<open>TxGas\<close>, \<open>txContractCreationGas\<close>, \<open>txDataZeroGas\<close> and
  \<open>txDataNonZeroGas\<close> are declared elsewhere in the repository; they are parameters.
  The two per-byte costs are divisors in \<open>DataGasCost\<close>, so they are not zero.
\<close>

record gas_params =
  TxGas :: u64
  txContractCreationGas :: u64
  txDataZeroGas :: u64
  txDataNonZeroGas :: u64

definition MaxUint64 :: u64 where
  "MaxUint64 = 0xffffffffffffffff"

text \<open>The \<open>for _, byteCode := range data\<close> loop of \<open>DataGasCost\<close>, counting in a \<open>uint64\<close>.\<close>

fun countNonZero :: "byte list \<Rightarrow> u64 \<Rightarrow> u64" where
  "countNonZero [] nonZeroByteCount = nonZeroByteCount"
| "countNonZero (byteCode # rest) nonZeroByteCount =
     countNonZero rest (if byteCode \<noteq> 0 then nonZeroByteCount + 1 else nonZeroByteCount)"

definition DataGasCost :: "gas_params \<Rightarrow> byte list \<Rightarrow> error + u64" where
  "DataGasCost P data =
     (if length data > 0 then
        (let nonZeroByteCount = countNonZero data 0 in
         if MaxUint64 div txDataNonZeroGas P < nonZeroByteCount then Inl errGasUintOverflow
         else
           (let gas = nonZeroByteCount * txDataNonZeroGas P;
                zeroByteCount = (of_nat (length data) :: u64) - nonZeroByteCount in
            if (MaxUint64 - gas) div txDataZeroGas P < zeroByteCount then Inl errGasUintOverflow
            else Inr (gas + zeroByteCount * txDataZeroGas P)))
      else Inr 0)"

definition IntrinsicGasCost :: "gas_params \<Rightarrow> byte list \<Rightarrow> bool \<Rightarrow> error + u64" where
  "IntrinsicGasCost P data isCreate =
     (let gas = (if isCreate then txContractCreationGas P else TxGas P) in
      case DataGasCost P data of
        Inl err \<Rightarrow> Inl errGasUintOverflow
      | Inr gasData \<Rightarrow>
          if MaxUint64 - gas < gasData then Inl errGasUintOverflow
          else Inr (gas + gasData))"

definition CalcQuotaUsed :: "u64 \<Rightarrow> u64 \<Rightarrow> u64 \<Rightarrow> u64 \<Rightarrow> error option \<Rightarrow> u64" where
  "CalcQuotaUsed quotaTotal quotaAddition quotaLeft quotaRefund err =
     (if err = Some ErrOutOfQuota then quotaTotal - quotaAddition
      else if err \<noteq> None then
        (if quotaTotal - quotaLeft < quotaAddition then 0
         else quotaTotal - quotaAddition - quotaLeft)
      else
        (if quotaTotal - quotaLeft < quotaAddition then 0
         else quotaTotal - quotaLeft - quotaAddition
              - min quotaRefund ((quotaTotal - quotaAddition - quotaLeft) div 2)))"

text \<open>Mathematical byte counts and cost, for stating what \<open>DataGasCost\<close> computes.\<close>

definition nonZeroBytes :: "byte list \<Rightarrow> nat" where
  "nonZeroBytes data = length (filter (\<lambda>b. b \<noteq> 0) data)"

definition zeroBytes :: "byte list \<Rightarrow> nat" where
  "zeroBytes data = length (filter (\<lambda>b. b = 0) data)"

definition dataCost :: "gas_params \<Rightarrow> byte list \<Rightarrow> nat" where
  "dataCost P data =
     nonZeroBytes data * unat (txDataNonZeroGas P) + zeroBytes data * unat (txDataZeroGas P)"

section \<open>Quota engine: CalcQuotaV2 (vm/quota/quota.go)\<close>

text \<open>
  Hashes and addresses are byte strings. Of an account block only the fields read by
  \<open>CalcQuotaV2\<close> are kept; of the block types only \<open>BlockTypeReceiveError\<close> is
  distinguished by the code.
\<close>

type_synonym hash = "byte list"

type_synonym address = "byte list"

datatype BlockType = BlockTypeSendCall | BlockTypeReceive | BlockTypeReceiveError

record AccountBlock =
  BlockType :: BlockType
  PrevHash :: hash
  SnapshotHash :: hash
  Nonce :: "byte list"
  Quota :: u64

record SnapshotBlock =
  Hash :: hash
  Height :: u64

text \<open>
  The \<open>quotaDb\<close> interface as a record of its answers. \<open>GetAccountBlockByHash\<close> and
  \<open>GetSnapshotBlockByHash\<close> return \<open>None\<close> for Go's \<open>nil\<close>;
  \<open>GetPledgeBeneficialAmount\<close> is \<open>contracts.GetPledgeBeneficialAmount(db, addr)\<close>,
  a \<open>big.Int\<close>.
\<close>

record quotaDb =
  GetPledgeBeneficialAmount :: "address \<Rightarrow> int"
  CurrentSnapshotBlock :: SnapshotBlock
  PrevAccountBlock :: "AccountBlock option"
  GetAccountBlockByHash :: "hash \<Rightarrow> AccountBlock option"
  GetSnapshotBlockByHash :: "hash \<Rightarrow> SnapshotBlock option"

text \<open>
  The protocol constants \<open>quotaForSection\<close>, \<open>quotaLimit\<close>, \<open>maxQuotaHeightGap\<close>,
  \<open>paramA\<close>, \<open>paramB\<close>, \<open>sectionList\<close> and \<open>precForFloat\<close> are declared elsewhere
  in the repository; they are parameters. A \<open>big.Float\<close> is a dyadic rational, modelled
  exactly as a \<open>rat\<close>; \<open>roundPrec\<close> is the rounding of a result to \<open>precForFloat\<close>
  bits, applied wherever the code stores into a float of that precision.
\<close>

record quota_params =
  quotaForSection :: u64
  quotaLimit :: u64
  maxQuotaHeightGap :: u64
  paramA :: rat
  paramB :: rat
  sectionList :: "rat list"
  roundPrec :: "rat \<Rightarrow> rat"

definition defaultDifficulty :: int where
  "defaultDifficulty = 0xffffffc000000000"

definition IsPoW :: "byte list \<Rightarrow> bool" where
  "IsPoW nonce = (length nonce > 0)"

text \<open>\<open>sectionList[i]\<close>, panicking outside the slice.\<close>

definition sectionAt :: "rat list \<Rightarrow> int \<Rightarrow> error + rat" where
  "sectionAt sl i =
     (if 0 \<le> i \<and> i < int (length sl) then Inr (sl ! nat i) else Inl PanicIndexOutOfRange)"

definition getExactIndex :: "rat list \<Rightarrow> rat \<Rightarrow> int \<Rightarrow> error + int" where
  "getExactIndex sl x index =
     (case sectionAt sl index of
        Inl e \<Rightarrow> Inl e
      | Inr s \<Rightarrow> if s \<le> x \<or> index = 0 then Inr index else Inr (index - 1))"

text \<open>
  The binary search recurses without a bound when called with \<open>left > right\<close>, so it is a
  partial function: \<open>None\<close> is divergence. Go's integer division truncates (\<open>sdiv\<close>).
  Indices are Go \<open>int\<close>s bounded by the length of the table, far from overflow, and
  are modelled as integers.
\<close>

partial_function (option) getIndexInSectionRange ::
  "rat list \<Rightarrow> rat \<Rightarrow> int \<Rightarrow> int \<Rightarrow> (error + int) option"
where
  "getIndexInSectionRange sl x left right =
     (if left = right then Some (getExactIndex sl x left)
      else
        (let mid = (left + right + 1) sdiv 2 in
         case sectionAt sl mid of
           Inl e \<Rightarrow> Some (Inl e)
         | Inr s \<Rightarrow>
             if s = x then Some (Inr mid)
             else if s > x then getIndexInSectionRange sl x left (mid - 1)
             else getIndexInSectionRange sl x mid right))"

definition getIndexInSection :: "rat list \<Rightarrow> rat \<Rightarrow> (error + int) option" where
  "getIndexInSection sl x = getIndexInSectionRange sl x 0 (int (length sl) - 1)"

text \<open>\<open>uint64(getIndexInSection(x)) * quotaForSection\<close>.\<close>

definition quotaOfIndex :: "quota_params \<Rightarrow> rat \<Rightarrow> (error + u64) option" where
  "quotaOfIndex P x =
     (case getIndexInSection (sectionList P) x of
        None \<Rightarrow> None
      | Some (Inl e) \<Rightarrow> Some (Inl e)
      | Some (Inr i) \<Rightarrow> Some (Inr (word_of_int i * quotaForSection P)))"

text \<open>
  The float computations of \<open>CalcQuotaV2\<close>: \<open>x\<close> from the height gap and the pledge, and
  \<open>x\<close> with the proof-of-work term added.
\<close>

definition pledgeX :: "quota_params \<Rightarrow> u64 \<Rightarrow> int \<Rightarrow> rat" where
  "pledgeX P gap pledgeAmount =
     (let tmpFLoat = roundPrec P (of_nat (unat gap));
          x = roundPrec P (tmpFLoat * paramA P);
          tmpFLoat = roundPrec P (of_int pledgeAmount)
      in roundPrec P (tmpFLoat * x))"

definition powX :: "quota_params \<Rightarrow> rat \<Rightarrow> int \<Rightarrow> rat" where
  "powX P x difficultyForCalc =
     (let tmpFLoat = roundPrec P (of_int difficultyForCalc);
          tmpFLoat = roundPrec P (tmpFLoat * paramB P)
      in roundPrec P (x + tmpFLoat))"

text \<open>
  The \<open>else\<close> branch of the loop of \<open>CalcQuotaV2\<close>, reached once the previous block is
  absent or refers to another snapshot: in three steps, the quota without proof of work,
  the total, and the result after subtracting \<open>quotaUsed\<close>.
\<close>

definition quotaWithoutPoWStage ::
  "quota_params \<Rightarrow> quotaDb \<Rightarrow> int \<Rightarrow> AccountBlock option \<Rightarrow> (error + rat \<times> u64) option"
where
  "quotaWithoutPoWStage P db pledgeAmount prevBlock =
     (case prevBlock of
        None \<Rightarrow> Some (Inr (0, 0))
      | Some b \<Rightarrow>
          if pledgeAmount = 0 then Some (Inr (0, 0))
          else
            (case GetSnapshotBlockByHash db (SnapshotHash b) of
               None \<Rightarrow> Some (Inl PanicNilDereference)
             | Some s \<Rightarrow>
                 (let x = pledgeX P (min (maxQuotaHeightGap P)
                                         (Height (CurrentSnapshotBlock db) - Height s))
                                    pledgeAmount
                  in case quotaOfIndex P x of
                       None \<Rightarrow> None
                     | Some (Inl e) \<Rightarrow> Some (Inl e)
                     | Some (Inr q) \<Rightarrow> Some (Inr (x, q)))))"

definition quotaResult :: "u64 \<Rightarrow> u64 \<Rightarrow> u64 \<Rightarrow> u64 \<times> u64" where
  "quotaResult quotaTotal quotaWithoutPoW quotaUsed =
     (if quotaTotal < quotaUsed then (0, 0)
      else (quotaTotal - quotaUsed, quotaTotal - quotaWithoutPoW))"

definition calcQuotaV2Final ::
  "quota_params \<Rightarrow> quotaDb \<Rightarrow> int \<Rightarrow> bool \<Rightarrow> int \<Rightarrow> AccountBlock option \<Rightarrow> u64
     \<Rightarrow> (error + u64 \<times> u64) option"
where
  "calcQuotaV2Final P db pledgeAmount isPoW difficultyForCalc prevBlock quotaUsed =
     (case quotaWithoutPoWStage P db pledgeAmount prevBlock of
        None \<Rightarrow> None
      | Some (Inl e) \<Rightarrow> Some (Inl e)
      | Some (Inr (x, quotaWithoutPoW)) \<Rightarrow>
          if isPoW then
            (case quotaOfIndex P (powX P x difficultyForCalc) of
               None \<Rightarrow> None
             | Some (Inl e) \<Rightarrow> Some (Inl e)
             | Some (Inr quotaTotal) \<Rightarrow>
                 Some (Inr (quotaResult quotaTotal quotaWithoutPoW quotaUsed)))
          else Some (Inr (quotaResult quotaWithoutPoW quotaWithoutPoW quotaUsed)))"

text \<open>
  The variables the \<open>for\<close> loop of \<open>CalcQuotaV2\<close> updates. The loop follows
  \<open>PrevHash\<close> links through the database, which need not end, so it is a partial
  function. The assignment \<open>flag = IsPoW(prevBlock.Nonce)\<close> at the head of the body is
  kept as in the source.
\<close>

record loopVars =
  prevBlockV :: "AccountBlock option"
  quotaUsedV :: u64
  flagV :: bool
  difficultyForCalcV :: int

partial_function (option) calcQuotaV2Loop ::
  "quota_params \<Rightarrow> quotaDb \<Rightarrow> int \<Rightarrow> bool \<Rightarrow> loopVars \<Rightarrow> (error + u64 \<times> u64) option"
where
  "calcQuotaV2Loop cfg db pledgeAmount isPoW v =
     (case prevBlockV v of
        None \<Rightarrow>
          calcQuotaV2Final cfg db pledgeAmount isPoW (difficultyForCalcV v) None (quotaUsedV v)
      | Some b \<Rightarrow>
          if Hash (CurrentSnapshotBlock db) = SnapshotHash b then
            (let v1 = v\<lparr>flagV := IsPoW (Nonce b)\<rparr> in
             if BlockType b = BlockTypeReceiveError then Some (Inr (0, 0))
             else if IsPoW (Nonce b) then
               (if flagV v1 then Some (Inr (0, 0))
                else calcQuotaV2Loop cfg db pledgeAmount isPoW
                       (v1\<lparr>flagV := True, difficultyForCalcV := defaultDifficulty,
                           quotaUsedV := quotaUsedV v1 + Quota b,
                           prevBlockV := GetAccountBlockByHash db (PrevHash b)\<rparr>))
             else calcQuotaV2Loop cfg db pledgeAmount isPoW
                    (v1\<lparr>quotaUsedV := quotaUsedV v1 + Quota b,
                        prevBlockV := GetAccountBlockByHash db (PrevHash b)\<rparr>))
          else calcQuotaV2Final cfg db pledgeAmount isPoW (difficultyForCalcV v) (Some b)
                 (quotaUsedV v))"

definition CalcQuotaV2 ::
  "quota_params \<Rightarrow> quotaDb \<Rightarrow> address \<Rightarrow> int \<Rightarrow> (error + u64 \<times> u64) option"
where
  "CalcQuotaV2 P db addr difficulty =
     (let pledgeAmount = GetPledgeBeneficialAmount db addr;
          isPoW = (0 < difficulty)
      in calcQuotaV2Loop P db pledgeAmount isPoW
           \<lparr>prevBlockV = PrevAccountBlock db, quotaUsedV = 0, flagV = False,
            difficultyForCalcV = difficulty\<rparr>)"

text \<open>
  The chain of previous blocks the loop walks: \<open>prevChain db n\<close> is the block reached from
  \<open>PrevAccountBlock\<close> after \<open>n\<close> steps along \<open>PrevHash\<close>; \<open>sameSnapshot\<close> is the
  loop condition \<open>prevBlock != nil && currentSnapshotHash == prevBlock.SnapshotHash\<close>.
\<close>

definition sameSnapshot :: "quotaDb \<Rightarrow> AccountBlock option \<Rightarrow> bool" where
  "sameSnapshot db prevBlock =
     (case prevBlock of
        None \<Rightarrow> False
      | Some b \<Rightarrow> Hash (CurrentSnapshotBlock db) = SnapshotHash b)"

definition prevOf :: "quotaDb \<Rightarrow> AccountBlock option \<Rightarrow> AccountBlock option" where
  "prevOf db prevBlock =
     (case prevBlock of
        None \<Rightarrow> None
      | Some b \<Rightarrow> GetAccountBlockByHash db (PrevHash b))"

fun walkBack :: "quotaDb \<Rightarrow> AccountBlock option \<Rightarrow> nat \<Rightarrow> AccountBlock option" where
  "walkBack db prevBlock 0 = prevBlock"
| "walkBack db prevBlock (Suc n) = walkBack db (prevOf db prevBlock) n"

definition prevChain :: "quotaDb \<Rightarrow> nat \<Rightarrow> AccountBlock option" where
  "prevChain db n = walkBack db (PrevAccountBlock db) n"

text \<open>Concrete parameters and a small ledger, used to evaluate the functions.\<close>

definition exampleParams :: quota_params where
  "exampleParams =
     \<lparr>quotaForSection = 21000, quotaLimit = 42000, maxQuotaHeightGap = 86400,
      paramA = 1, paramB = 1, sectionList = [0, 1, 2], roundPrec = (\<lambda>x. x)\<rparr>"

definition powBlock :: AccountBlock where
  "powBlock =
     \<lparr>BlockType = BlockTypeSendCall, PrevHash = [7], SnapshotHash = [2],
      Nonce = [1], Quota = 21000\<rparr>"

definition plainBlock :: AccountBlock where
  "plainBlock = powBlock\<lparr>Nonce := []\<rparr>"

definition olderBlock :: AccountBlock where
  "olderBlock =
     \<lparr>BlockType = BlockTypeReceive, PrevHash = [], SnapshotHash = [1],
      Nonce = [], Quota = 0\<rparr>"

definition exampleDb :: "int \<Rightarrow> AccountBlock option \<Rightarrow> quotaDb" where
  "exampleDb pledge prev =
     \<lparr>GetPledgeBeneficialAmount = (\<lambda>addr. pledge),
      CurrentSnapshotBlock = \<lparr>Hash = [2], Height = 10\<rparr>,
      PrevAccountBlock = prev,
      GetAccountBlockByHash = (\<lambda>h. if h = [7] then Some olderBlock else None),
      GetSnapshotBlockByHash =
        (\<lambda>h. if h = [1] then Some \<lparr>Hash = [1], Height = 5\<rparr>
              else if h = [2] then Some \<lparr>Hash = [2], Height = 10\<rparr> else None)\<rparr>"

section \<open>State store facade (package vm-db: GetValue, GetOriginalValue, SetValue, DeleteValue)\<close>

type_synonym bytes = "byte list"

text \<open>
  Modelled from the spec: the unsaved overlay (the type of \<open>db.unsaved\<close>) is defined
  elsewhere in the repository. The spec says that writes go to the overlay and reads consult it
  first, so it is a map from keys to the bytes last written.
\<close>

type_synonym Unsaved = "bytes \<rightharpoonup> bytes"

text \<open>
  Modelled from the spec: \<open>unsaved.GetValue\<close>, defined elsewhere in the repository,
  returns the pair \<open>(value, ok)\<close> of the overlay's entry for the key.
\<close>

definition unsavedGetValue :: "Unsaved \<Rightarrow> bytes \<Rightarrow> bytes \<times> bool" where
  "unsavedGetValue u key = (case u key of None \<Rightarrow> ([], False) | Some v \<Rightarrow> (v, True))"

text \<open>
  Modelled from the spec: \<open>unsaved.SetValue\<close>, defined elsewhere in the repository,
  records the bytes written for the key.
\<close>

definition unsavedSetValue :: "Unsaved \<Rightarrow> bytes \<Rightarrow> bytes \<Rightarrow> Unsaved" where
  "unsavedSetValue u key v = u(key \<mapsto> v)"

text \<open>
  The database handle: the overlay, and what \<open>getPrevStateSnapshot\<close> returns, an error
  or the committed snapshot with its own \<open>GetValue\<close>.
\<close>

record vmDb =
  unsaved :: Unsaved
  getPrevStateSnapshot :: "error + (bytes \<Rightarrow> error + bytes)"

definition GetOriginalValue :: "vmDb \<Rightarrow> bytes \<Rightarrow> error + bytes" where
  "GetOriginalValue db key =
     (case getPrevStateSnapshot db of
        Inl err \<Rightarrow> Inl err
      | Inr prevStateSnapshot \<Rightarrow> prevStateSnapshot key)"

definition GetValue :: "vmDb \<Rightarrow> bytes \<Rightarrow> error + bytes" where
  "GetValue db key =
     (case unsavedGetValue (unsaved db) key of
        (v, ok) \<Rightarrow> if ok then Inr v else GetOriginalValue db key)"

definition SetValue :: "vmDb \<Rightarrow> bytes \<Rightarrow> bytes \<Rightarrow> vmDb" where
  "SetValue db key v = db\<lparr>unsaved := unsavedSetValue (unsaved db) key v\<rparr>"

definition DeleteValue :: "vmDb \<Rightarrow> bytes \<Rightarrow> vmDb" where
  "DeleteValue db key = db\<lparr>unsaved := unsavedSetValue (unsaved db) key []\<rparr>"

section \<open>Fund contract of the exchange (contracts.MethodDexFund*)\<close>

text \<open>
  Modelled from the spec: the fund contract is defined elsewhere in the repository (package
  contracts; its test is vm/dex_fund_test), so its data and methods follow sections 3 and 4.D of the specification.
  A token tag is a 10-byte string; an address is a user's or a well-known contract's.
\<close>

type_synonym tokenId = string

datatype dexAddress =
    UserAddress string
  | AddressDexFund
  | AddressDexTrade
  | AddressMintage
  | AddressPledge

text \<open>Modelled from the spec: the error kinds of section 7 raised by the fund contract.\<close>

datatype dexError =
    TokenInvalid
  | MethodNotFound
  | InvalidArgument
  | Unauthorized
  | InsufficientFunds
  | ConsistencyViolation

text \<open>
  Modelled from the spec: an account entry \<open>{asset, available, locked}\<close> with balances
  in the naturals; a fund record is the list of a user's entries.
\<close>

record Account =
  asset :: tokenId
  available :: nat
  locked :: nat

datatype OrderStatus = Pending | PartiallyExecuted | FullyExecuted | Cancelled

datatype OrderType = Limited | Market

text \<open>
  Modelled from the spec: an order. \<open>side\<close> is the wire's boolean (\<open>True\<close> is sell);
  \<open>price\<close> is the scaled integer of the reference, with scale \<open>10^8\<close>.
\<close>

record Order =
  order_id :: nat
  owner_address :: dexAddress
  trade_asset :: tokenId
  quote_asset :: tokenId
  side :: bool
  order_type :: OrderType
  price :: nat
  quantity :: nat
  amount :: nat
  status :: OrderStatus
  timestamp :: int

text \<open>Modelled from the spec: a settle action; an absent field is \<open>0\<close>.\<close>

record SettleAction =
  settle_owner :: dexAddress
  settle_asset :: tokenId
  inc_available :: nat
  dec_available :: nat
  inc_locked :: nat
  dec_locked :: nat

text \<open>
  Modelled from the spec: a method call as the ABI codec and the record codec decode it
  (the spec requires \<open>unpack (pack m args) = args\<close>, so the payload is kept decoded).
\<close>

datatype MethodCall =
    UserDeposit dexAddress tokenId nat
  | UserWithdraw dexAddress tokenId nat
  | NewOrder Order
  | SettleOrders "SettleAction list"

text \<open>Modelled from the spec: the fields of an account block the fund contract uses.\<close>

record DexBlock =
  AccountAddress :: dexAddress
  ToAddress :: dexAddress
  TokenId :: tokenId
  Amount :: nat
  Data :: "MethodCall option"
  Timestamp :: int

text \<open>
  Modelled from the spec: the storage the contract sees, the mintage records of the
  token registry and the fund record of each user.
\<close>

record DexDb =
  mintage :: "tokenId \<rightharpoonup> string"
  funds :: "dexAddress \<rightharpoonup> Account list"

definition token_registered :: "DexDb \<Rightarrow> tokenId \<Rightarrow> bool" where
  "token_registered db tag = (mintage db tag \<noteq> None)"

text \<open>Modelled from the spec: looking up an asset entry, and storing one (locate or create).\<close>

fun findAccount :: "tokenId \<Rightarrow> Account list \<Rightarrow> Account option" where
  "findAccount t [] = None"
| "findAccount t (a # as) = (if asset a = t then Some a else findAccount t as)"

fun putAccount :: "Account \<Rightarrow> Account list \<Rightarrow> Account list" where
  "putAccount e [] = [e]"
| "putAccount e (a # as) = (if asset a = asset e then e # as else a # putAccount e as)"

definition getFund :: "DexDb \<Rightarrow> dexAddress \<Rightarrow> Account list" where
  "getFund db user = (case funds db user of None \<Rightarrow> [] | Some f \<Rightarrow> f)"

definition getAccount :: "DexDb \<Rightarrow> dexAddress \<Rightarrow> tokenId \<Rightarrow> Account" where
  "getAccount db user t =
     (case findAccount t (getFund db user) of
        None \<Rightarrow> \<lparr>asset = t, available = 0, locked = 0\<rparr>
      | Some a \<Rightarrow> a)"

definition putFundAccount :: "DexDb \<Rightarrow> dexAddress \<Rightarrow> Account \<Rightarrow> DexDb" where
  "putFundAccount db user e = db\<lparr>funds := (funds db)(user \<mapsto> putAccount e (getFund db user))\<rparr>"

text \<open>
  Modelled from the spec: \<open>UserDeposit\<close>. Send requires a registered token and makes the
  block a transfer of the amount of the asset to the fund contract; receive credits the
  beneficiary's available balance.
\<close>

definition UserDeposit_DoSend :: "DexDb \<Rightarrow> DexBlock \<Rightarrow> dexError + DexBlock" where
  "UserDeposit_DoSend db block =
     (case Data block of
        Some (UserDeposit beneficiary t amt) \<Rightarrow>
          if \<not> token_registered db t then Inl TokenInvalid
          else Inr (block\<lparr>TokenId := t, Amount := amt, ToAddress := AddressDexFund\<rparr>)
      | _ \<Rightarrow> Inl InvalidArgument)"

definition UserDeposit_DoReceive :: "DexDb \<Rightarrow> DexBlock \<Rightarrow> dexError + DexDb" where
  "UserDeposit_DoReceive db sendBlock =
     (case Data sendBlock of
        Some (UserDeposit beneficiary t amt) \<Rightarrow>
          (let a = getAccount db beneficiary t
           in Inr (putFundAccount db beneficiary (a\<lparr>available := available a + amt\<rparr>)))
      | _ \<Rightarrow> Inl InvalidArgument)"

text \<open>
  Modelled from the spec: \<open>UserWithdraw\<close>. Send requires a registered token, a positive
  amount and the caller to be the beneficiary; receive requires the funds, debits them and
  appends a transfer from the fund contract to the beneficiary.
\<close>

definition UserWithdraw_DoSend :: "DexDb \<Rightarrow> DexBlock \<Rightarrow> dexError + DexBlock" where
  "UserWithdraw_DoSend db block =
     (case Data block of
        Some (UserWithdraw beneficiary t amt) \<Rightarrow>
          if \<not> token_registered db t then Inl TokenInvalid
          else if amt = 0 then Inl InvalidArgument
          else if AccountAddress block \<noteq> beneficiary then Inl Unauthorized
          else Inr block
      | _ \<Rightarrow> Inl InvalidArgument)"

definition UserWithdraw_DoReceive ::
  "DexDb \<Rightarrow> DexBlock \<Rightarrow> DexBlock \<Rightarrow> dexError + DexDb \<times> DexBlock list"
where
  "UserWithdraw_DoReceive db receiveBlock sendBlock =
     (case Data sendBlock of
        Some (UserWithdraw beneficiary t amt) \<Rightarrow>
          (let a = getAccount db beneficiary t
           in if available a < amt then Inl InsufficientFunds
              else Inr (putFundAccount db beneficiary (a\<lparr>available := available a - amt\<rparr>),
                        [\<lparr>AccountAddress = AddressDexFund, ToAddress = beneficiary,
                          TokenId = t, Amount = amt, Data = None,
                          Timestamp = Timestamp receiveBlock\<rparr>]))
      | _ \<Rightarrow> Inl InvalidArgument)"

text \<open>
  Modelled from the spec: \<open>amount = quantity * price\<close> in exact fixed point, rounded
  half-even to an integer; the price has scale \<open>10^8\<close>.
\<close>

definition priceScale :: nat where
  "priceScale = 10 ^ 8"

definition roundHalfEven :: "nat \<Rightarrow> nat \<Rightarrow> nat" where
  "roundHalfEven n d =
     (let q = n div d; r = n mod d
      in if 2 * r < d then q
         else if d < 2 * r then q + 1
         else if even q then q else q + 1)"

definition orderAmount :: "Order \<Rightarrow> nat" where
  "orderAmount ord = roundHalfEven (quantity ord * price ord) priceScale"

text \<open>
  Modelled from the spec: \<open>NewOrder\<close>. Send validates the order, computes its amount,
  sets status, timestamp and id, and replaces the payload with the normalised order;
  the block's timestamp and the next order id come from the context. Receive locks the
  quantity of the trade asset (sell) or the amount of the quote asset (buy) and appends
  one block to the trade contract carrying the order.
\<close>

definition NewOrder_DoSend :: "nat \<Rightarrow> DexDb \<Rightarrow> DexBlock \<Rightarrow> dexError + DexBlock" where
  "NewOrder_DoSend nextOrderId db block =
     (case Data block of
        Some (NewOrder ord) \<Rightarrow>
          if \<not> token_registered db (trade_asset ord) \<or> \<not> token_registered db (quote_asset ord)
          then Inl TokenInvalid
          else if trade_asset ord = quote_asset ord then Inl InvalidArgument
          else if price ord = 0 \<or> quantity ord = 0 then Inl InvalidArgument
          else Inr (block\<lparr>Data := Some (NewOrder
                      (ord\<lparr>amount := orderAmount ord, status := Pending,
                           timestamp := Timestamp block, order_id := nextOrderId\<rparr>))\<rparr>)
      | _ \<Rightarrow> Inl InvalidArgument)"

definition lockAsset :: "Order \<Rightarrow> tokenId" where
  "lockAsset ord = (if side ord then trade_asset ord else quote_asset ord)"

definition lockAmount :: "Order \<Rightarrow> nat" where
  "lockAmount ord = (if side ord then quantity ord else amount ord)"

definition NewOrder_DoReceive ::
  "DexDb \<Rightarrow> DexBlock \<Rightarrow> DexBlock \<Rightarrow> dexError + DexDb \<times> DexBlock list"
where
  "NewOrder_DoReceive db receiveBlock sendBlock =
     (case Data sendBlock of
        Some (NewOrder ord) \<Rightarrow>
          (case findAccount (lockAsset ord) (getFund db (owner_address ord)) of
             None \<Rightarrow> Inl InsufficientFunds
           | Some a \<Rightarrow>
               if available a < lockAmount ord then Inl InsufficientFunds
               else Inr (putFundAccount db (owner_address ord)
                           (a\<lparr>available := available a - lockAmount ord,
                              locked := locked a + lockAmount ord\<rparr>),
                         [\<lparr>AccountAddress = AddressDexFund, ToAddress = AddressDexTrade,
                           TokenId = TokenId sendBlock, Amount = 0,
                           Data = Some (NewOrder ord),
                           Timestamp = Timestamp receiveBlock\<rparr>]))
      | _ \<Rightarrow> Inl InvalidArgument)"

text \<open>
  Modelled from the spec: \<open>SettleOrders\<close>. Send accepts the trade contract only. Receive
  applies the actions in order, each to the entry it locates or creates; a field that
  would become negative rejects the whole envelope, whose storage is then unchanged.
\<close>

definition SettleOrders_DoSend :: "DexDb \<Rightarrow> DexBlock \<Rightarrow> dexError + DexBlock" where
  "SettleOrders_DoSend db block =
     (if AccountAddress block \<noteq> AddressDexTrade then Inl Unauthorized
      else case Data block of
             Some (SettleOrders actions) \<Rightarrow> Inr block
           | _ \<Rightarrow> Inl InvalidArgument)"

definition applySettleAction :: "DexDb \<Rightarrow> SettleAction \<Rightarrow> dexError + DexDb" where
  "applySettleAction db act =
     (let a = getAccount db (settle_owner act) (settle_asset act)
      in if available a + inc_available act < dec_available act
            \<or> locked a + inc_locked act < dec_locked act
         then Inl ConsistencyViolation
         else Inr (putFundAccount db (settle_owner act)
                     (a\<lparr>available := available a + inc_available act - dec_available act,
                        locked := locked a + inc_locked act - dec_locked act\<rparr>)))"

fun applySettleActions :: "DexDb \<Rightarrow> SettleAction list \<Rightarrow> dexError + DexDb" where
  "applySettleActions db [] = Inr db"
| "applySettleActions db (act # acts) =
     (case applySettleAction db act of
        Inl e \<Rightarrow> Inl e
      | Inr db1 \<Rightarrow> applySettleActions db1 acts)"

definition SettleOrders_DoReceive :: "DexDb \<Rightarrow> DexBlock \<Rightarrow> dexError + DexDb" where
  "SettleOrders_DoReceive db sendBlock =
     (case Data sendBlock of
        Some (SettleOrders actions) \<Rightarrow> applySettleActions db actions
      | _ \<Rightarrow> Inl InvalidArgument)"

text \<open>
  What an envelope asks for in total: an action targets a user and an asset, and
  \<open>settleTotal\<close> sums one delta field over the actions of the envelope that target them.
\<close>

definition settleTargets :: "dexAddress \<Rightarrow> tokenId \<Rightarrow> SettleAction \<Rightarrow> bool" where
  "settleTargets user t act = (settle_owner act = user \<and> settle_asset act = t)"

definition settleTotal ::
  "(SettleAction \<Rightarrow> nat) \<Rightarrow> dexAddress \<Rightarrow> tokenId \<Rightarrow> SettleAction list \<Rightarrow> nat" where
  "settleTotal field user t actions =
     sum_list (map field (filter (settleTargets user t) actions))"

text \<open>
  The scenario of the contract's test: tokens, the user, and the storage before each
  step (S1 deposit and withdraw, S2 unregistered token, S3 sell order, S4 settle).
\<close>

definition VITE :: tokenId where
  "VITE = ''VITE TOKEN''"

definition ETH :: tokenId where
  "ETH = ''ETH  TOKEN''"

definition userAddress :: dexAddress where
  "userAddress = UserAddress ''12345678901234567890''"

definition blockFrom :: "dexAddress \<Rightarrow> MethodCall \<Rightarrow> DexBlock" where
  "blockFrom sender call =
     \<lparr>AccountAddress = sender, ToAddress = UserAddress [], TokenId = [], Amount = 0,
      Data = Some call, Timestamp = 0\<rparr>"

definition receiveBlock0 :: DexBlock where
  "receiveBlock0 =
     \<lparr>AccountAddress = AddressDexFund, ToAddress = UserAddress [], TokenId = [], Amount = 0,
      Data = None, Timestamp = 1000\<rparr>"

definition s1Db :: DexDb where
  "s1Db = \<lparr>mintage = [VITE \<mapsto> ''VITE''], funds = Map.empty\<rparr>"

definition s3Db :: DexDb where
  "s3Db =
     \<lparr>mintage = [VITE \<mapsto> ''VITE'', ETH \<mapsto> ''ETH ''],
      funds = [userAddress \<mapsto> [\<lparr>asset = VITE, available = 2800, locked = 0\<rparr>]]\<rparr>"

definition s3Order :: Order where
  "s3Order =
     \<lparr>order_id = 1, owner_address = userAddress, trade_asset = VITE, quote_asset = ETH,
      side = True, order_type = Limited, price = 3000000, quantity = 2000, amount = 0,
      status = FullyExecuted, timestamp = 77\<rparr>"

definition s4Db :: DexDb where
  "s4Db =
     \<lparr>mintage = [VITE \<mapsto> ''VITE'', ETH \<mapsto> ''ETH ''],
      funds = [userAddress \<mapsto> [\<lparr>asset = VITE, available = 800, locked = 2000\<rparr>]]\<rparr>"

definition s4Actions :: "SettleAction list" where
  "s4Actions =
     [\<lparr>settle_owner = userAddress, settle_asset = VITE, inc_available = 0,
       dec_available = 0, inc_locked = 0, dec_locked = 1000\<rparr>,
      \<lparr>settle_owner = userAddress, settle_asset = ETH, inc_available = 30,
       dec_available = 0, inc_locked = 0, dec_locked = 0\<rparr>]"

definition s4Actions3 :: "SettleAction list" where
  "s4Actions3 =
     s4Actions @
     [\<lparr>settle_owner = userAddress, settle_asset = VITE, inc_available = 500,
       dec_available = 0, inc_locked = 0, dec_locked = 500\<rparr>]"

section \<open>Properties of the gas costs and of the quota used\<close>

lemma countNonZero_eq:
  "countNonZero data n = n + of_nat (nonZeroBytes data)"
  by (induction data arbitrary: n) (simp_all add: nonZeroBytes_def)

lemma bytes_split: "nonZeroBytes data + zeroBytes data = length data"
  unfolding nonZeroBytes_def zeroBytes_def
  using sum_length_filter_compl [of "\<lambda>b. b \<noteq> 0" data] by simp

lemma unat_MaxUint64: "unat MaxUint64 = 2 ^ 64 - 1"
  by (simp add: MaxUint64_def)

lemma DataGasCost_nat:
  assumes len: "length data < 2 ^ 63"
    and z: "0 < txDataZeroGas P"
    and nz: "0 < txDataNonZeroGas P"
  shows "DataGasCost P data =
           (if dataCost P data < 2 ^ 64 then Inr (of_nat (dataCost P data))
            else Inl errGasUintOverflow)"
proof -
  define a where "a = nonZeroBytes data"
  define b where "b = zeroBytes data"
  define NZ where "NZ = unat (txDataNonZeroGas P)"
  define Z where "Z = unat (txDataZeroGas P)"
  have ab: "a + b = length data" by (simp add: a_def b_def bytes_split)
  have Zpos: "0 < Z" using z by (simp add: Z_def unat_gt_0)
  have NZpos: "0 < NZ" using nz by (simp add: NZ_def unat_gt_0)
  have a64: "a < 2 ^ 64" and b64: "b < 2 ^ 64" using ab len by auto
  have ua: "unat (of_nat a :: u64) = a" using a64 by (simp add: unat_of_nat)
  have ub: "unat (of_nat b :: u64) = b" using b64 by (simp add: unat_of_nat)
  have cnt: "countNonZero data 0 = (of_nat a :: u64)"
    by (simp add: countNonZero_eq a_def)
  have zc: "(of_nat (length data) :: u64) - of_nat a = of_nat b"
    using ab by (metis add_diff_cancel_left' of_nat_add)
  have NZlt: "NZ < 2 ^ 64" and Zlt: "Z < 2 ^ 64"
    using unsigned_less [of "txDataNonZeroGas P", where 'a = nat]
      unsigned_less [of "txDataZeroGas P", where 'a = nat]
    by (simp_all add: NZ_def Z_def)
  have c1: "(MaxUint64 div txDataNonZeroGas P < of_nat a) \<longleftrightarrow> \<not> a * NZ < 2 ^ 64"
  proof -
    have "(MaxUint64 div txDataNonZeroGas P < of_nat a) \<longleftrightarrow> unat MaxUint64 div NZ < a"
      by (simp add: word_less_nat_alt unat_div ua NZ_def)
    also have "\<dots> \<longleftrightarrow> unat MaxUint64 < a * NZ"
      by (rule div_less_iff_less_mult [OF NZpos])
    also have "\<dots> \<longleftrightarrow> \<not> a * NZ < 2 ^ 64"
      by (auto simp add: unat_MaxUint64)
    finally show ?thesis .
  qed
  show ?thesis
  proof (cases "data = []")
    case True
    then show ?thesis by (simp add: DataGasCost_def dataCost_def nonZeroBytes_def zeroBytes_def)
  next
    case False
    show ?thesis
    proof (cases "a * NZ < 2 ^ 64")
      case False
      then have "\<not> dataCost P data < 2 ^ 64"
        by (simp add: dataCost_def a_def [symmetric] NZ_def [symmetric])
      with False \<open>data \<noteq> []\<close> show ?thesis
        using c1 by (simp add: DataGasCost_def Let_def cnt)
    next
      case True
      define g where "g = a * NZ"
      have ug: "unat (of_nat a * txDataNonZeroGas P) = g"
        using True by (simp add: unat_word_ariths ua NZ_def g_def)
      have c2: "((MaxUint64 - of_nat a * txDataNonZeroGas P) div txDataZeroGas P < of_nat b)
                  \<longleftrightarrow> \<not> g + b * Z < 2 ^ 64"
      proof -
        have gle: "g \<le> unat MaxUint64"
          using True by (simp add: g_def unat_MaxUint64)
        then have le: "of_nat a * txDataNonZeroGas P \<le> MaxUint64"
          by (simp add: word_le_nat_alt ug)
        have "unat (MaxUint64 - of_nat a * txDataNonZeroGas P) = unat MaxUint64 - g"
          using le by (simp add: unat_sub ug)
        then have "((MaxUint64 - of_nat a * txDataNonZeroGas P) div txDataZeroGas P < of_nat b)
                     \<longleftrightarrow> (unat MaxUint64 - g) div Z < b"
          by (simp add: word_less_nat_alt unat_div ub Z_def)
        also have "\<dots> \<longleftrightarrow> unat MaxUint64 - g < b * Z"
          by (rule div_less_iff_less_mult [OF Zpos])
        also have "\<dots> \<longleftrightarrow> \<not> g + b * Z < 2 ^ 64"
          using gle by (auto simp add: unat_MaxUint64)
        finally show ?thesis .
      qed
      have dc: "dataCost P data = g + b * Z"
        by (simp add: dataCost_def a_def b_def NZ_def Z_def g_def)
      have res: "of_nat a * txDataNonZeroGas P + of_nat b * txDataZeroGas P
                   = (of_nat (g + b * Z) :: u64)"
        by (simp add: g_def NZ_def Z_def)
      from True \<open>data \<noteq> []\<close> show ?thesis
        using c1 c2 by (simp add: DataGasCost_def Let_def cnt zc dc res)
    qed
  qed
qed

lemma IntrinsicGasCost_nat:
  assumes len: "length data < 2 ^ 63"
    and z: "0 < txDataZeroGas P"
    and nz: "0 < txDataNonZeroGas P"
  shows "IntrinsicGasCost P data isCreate =
           (if unat (if isCreate then txContractCreationGas P else TxGas P) + dataCost P data < 2 ^ 64
            then Inr (of_nat (unat (if isCreate then txContractCreationGas P else TxGas P)
                              + dataCost P data))
            else Inl errGasUintOverflow)"
proof -
  define gas where "gas = (if isCreate then txContractCreationGas P else TxGas P)"
  define c where "c = dataCost P data"
  have D: "DataGasCost P data = (if c < 2 ^ 64 then Inr (of_nat c) else Inl errGasUintOverflow)"
    unfolding c_def by (rule DataGasCost_nat [OF len z nz])
  have I: "IntrinsicGasCost P data isCreate =
             (case DataGasCost P data of
                Inl err \<Rightarrow> Inl errGasUintOverflow
              | Inr gasData \<Rightarrow>
                  if MaxUint64 - gas < gasData then Inl errGasUintOverflow
                  else Inr (gas + gasData))"
    unfolding IntrinsicGasCost_def Let_def gas_def by (rule refl)
  show ?thesis
  proof (cases "c < 2 ^ 64")
    case False
    then show ?thesis
      unfolding I D gas_def [symmetric] c_def [symmetric] by simp
  next
    case True
    then have uc: "unat (of_nat c :: u64) = c" by (simp add: unat_of_nat)
    have gl: "unat gas < 2 ^ 64"
      using unsigned_less [of gas, where 'a = nat] by simp
    then have gle: "gas \<le> MaxUint64"
      by (simp add: word_le_nat_alt unat_MaxUint64)
    have "unat (MaxUint64 - gas) = unat MaxUint64 - unat gas"
      using gle by (rule unat_sub)
    then have cmp: "(MaxUint64 - gas < of_nat c) \<longleftrightarrow> unat MaxUint64 - unat gas < c"
      by (simp add: word_less_nat_alt uc)
    have cmp': "(MaxUint64 - gas < of_nat c) \<longleftrightarrow> \<not> unat gas + c < 2 ^ 64"
      unfolding cmp using gl by (auto simp add: unat_MaxUint64)
    from True show ?thesis
      unfolding I D gas_def [symmetric] c_def [symmetric] by (simp add: cmp')
  qed
qed

text \<open>
  Claim C6. For a byte string of a length Go can hold, and per-byte costs with
  \<open>0 < txDataZeroGas < txDataNonZeroGas\<close>, \<open>DataGasCost\<close> returns exactly
  \<open>nonZeroCount * txDataNonZeroGas + zeroCount * txDataZeroGas\<close> when that sum fits in
  64 bits, and \<open>errGasUintOverflow\<close> otherwise, in particular whenever one of the two
  products or their sum overflows. \<open>IntrinsicGasCost\<close> returns base gas plus data gas
  when that fits in 64 bits and \<open>errGasUintOverflow\<close> otherwise.
\<close>

theorem DataGasCost_exact_or_overflow:
  assumes "length data < 2 ^ 63"
    and "0 < txDataZeroGas P"
    and "txDataZeroGas P < txDataNonZeroGas P"
  shows "DataGasCost P data =
           (if dataCost P data < 2 ^ 64 then Inr (of_nat (dataCost P data))
            else Inl errGasUintOverflow)
       \<and> (2 ^ 64 \<le> nonZeroBytes data * unat (txDataNonZeroGas P)
            \<or> 2 ^ 64 \<le> zeroBytes data * unat (txDataZeroGas P)
            \<or> 2 ^ 64 \<le> dataCost P data
          \<longrightarrow> DataGasCost P data = Inl errGasUintOverflow)
       \<and> IntrinsicGasCost P data isCreate =
           (if unat (if isCreate then txContractCreationGas P else TxGas P) + dataCost P data < 2 ^ 64
            then Inr (of_nat (unat (if isCreate then txContractCreationGas P else TxGas P)
                              + dataCost P data))
            else Inl errGasUintOverflow)"
proof -
  have nz: "0 < txDataNonZeroGas P"
    using assms(2,3) by (rule less_trans)
  have D: "DataGasCost P data =
           (if dataCost P data < 2 ^ 64 then Inr (of_nat (dataCost P data))
            else Inl errGasUintOverflow)"
    by (rule DataGasCost_nat [OF assms(1,2) nz])
  have O: "2 ^ 64 \<le> nonZeroBytes data * unat (txDataNonZeroGas P)
            \<or> 2 ^ 64 \<le> zeroBytes data * unat (txDataZeroGas P)
            \<or> 2 ^ 64 \<le> dataCost P data
          \<longrightarrow> DataGasCost P data = Inl errGasUintOverflow"
    unfolding D by (auto simp add: dataCost_def)
  show ?thesis
    using D O IntrinsicGasCost_nat [OF assms(1,2) nz] by blast
qed

theorem DataGasCost_exact_or_overflow_witness:
  "DataGasCost \<lparr>TxGas = 21000, txContractCreationGas = 53000,
                 txDataZeroGas = 4, txDataNonZeroGas = 68\<rparr> [1, 0, 2] = Inr 140
   \<and> IntrinsicGasCost \<lparr>TxGas = 21000, txContractCreationGas = 53000,
                 txDataZeroGas = 4, txDataNonZeroGas = 68\<rparr> [1, 0, 2] False = Inr 21140
   \<and> DataGasCost \<lparr>TxGas = 21000, txContractCreationGas = 53000,
                 txDataZeroGas = 1, txDataNonZeroGas = 0x8000000000000000\<rparr> [1, 1]
       = Inl errGasUintOverflow
   \<and> IntrinsicGasCost \<lparr>TxGas = 0xffffffffffffff00, txContractCreationGas = 53000,
                 txDataZeroGas = 4, txDataNonZeroGas = 68\<rparr> [1, 0, 2, 3, 4] False
       = Inl errGasUintOverflow"
  using DataGasCost_exact_or_overflow
          [of "[1, 0, 2]" "\<lparr>TxGas = 21000, txContractCreationGas = 53000,
                 txDataZeroGas = 4, txDataNonZeroGas = 68\<rparr>" False]
        DataGasCost_exact_or_overflow
          [of "[1, 1]" "\<lparr>TxGas = 21000, txContractCreationGas = 53000,
                 txDataZeroGas = 1, txDataNonZeroGas = 0x8000000000000000\<rparr>" False]
        DataGasCost_exact_or_overflow
          [of "[1, 0, 2, 3, 4]" "\<lparr>TxGas = 0xffffffffffffff00, txContractCreationGas = 53000,
                 txDataZeroGas = 4, txDataNonZeroGas = 68\<rparr>" False]
  by (simp add: dataCost_def nonZeroBytes_def zeroBytes_def)

lemma unat_min_word: "unat (min (a :: u64) b) = min (unat a) (unat b)"
  by (simp add: min_def word_le_nat_alt)

text \<open>
  Claim C5. When \<open>quotaAddition + quotaLeft \<le> quotaTotal\<close>, \<open>CalcQuotaUsed\<close> returns
  \<open>quotaTotal - quotaAddition\<close> on \<open>ErrOutOfQuota\<close>, and on success it returns
  \<open>quotaTotal - quotaAddition - quotaLeft\<close> minus the refund
  \<open>min quotaRefund ((quotaTotal - quotaAddition - quotaLeft) div 2)\<close>; no subtraction wraps.
\<close>

theorem CalcQuotaUsed_out_of_quota_and_success:
  assumes "unat quotaAddition + unat quotaLeft \<le> unat quotaTotal"
  shows "unat (CalcQuotaUsed quotaTotal quotaAddition quotaLeft quotaRefund (Some ErrOutOfQuota))
           = unat quotaTotal - unat quotaAddition
       \<and> unat (CalcQuotaUsed quotaTotal quotaAddition quotaLeft quotaRefund None)
           = (unat quotaTotal - unat quotaAddition - unat quotaLeft)
             - min (unat quotaRefund)
                   ((unat quotaTotal - unat quotaAddition - unat quotaLeft) div 2)"
proof -
  define u where "u = unat quotaTotal - unat quotaAddition - unat quotaLeft"
  have a_le: "quotaAddition \<le> quotaTotal" and l_le: "quotaLeft \<le> quotaTotal"
    using assms by (simp_all add: word_le_nat_alt)
  have tl: "unat (quotaTotal - quotaLeft) = unat quotaTotal - unat quotaLeft"
    using l_le by (rule unat_sub)
  have ta: "unat (quotaTotal - quotaAddition) = unat quotaTotal - unat quotaAddition"
    using a_le by (rule unat_sub)
  have not_lt: "\<not> quotaTotal - quotaLeft < quotaAddition"
    using assms by (simp add: word_less_nat_alt tl)
  have a_le': "quotaAddition \<le> quotaTotal - quotaLeft"
    using not_lt by simp
  have tla: "unat (quotaTotal - quotaLeft - quotaAddition) = u"
    using unat_sub [OF a_le'] by (simp add: tl u_def)
  have comm: "quotaTotal - quotaAddition - quotaLeft = quotaTotal - quotaLeft - quotaAddition"
    by simp
  have half: "unat ((quotaTotal - quotaAddition - quotaLeft) div 2) = u div 2"
    by (simp add: comm unat_div tla)
  define m where "m = min quotaRefund ((quotaTotal - quotaAddition - quotaLeft) div 2)"
  have um: "unat m = min (unat quotaRefund) (u div 2)"
    by (simp add: m_def unat_min_word half)
  have m_le: "m \<le> quotaTotal - quotaLeft - quotaAddition"
    by (simp add: word_le_nat_alt um tla)
  have "unat (quotaTotal - quotaLeft - quotaAddition - m) = u - min (unat quotaRefund) (u div 2)"
    using unat_sub [OF m_le] by (simp add: tla um)
  then have ok: "unat (CalcQuotaUsed quotaTotal quotaAddition quotaLeft quotaRefund None)
           = u - min (unat quotaRefund) (u div 2)"
    using not_lt by (simp add: CalcQuotaUsed_def m_def)
  have oq: "unat (CalcQuotaUsed quotaTotal quotaAddition quotaLeft quotaRefund (Some ErrOutOfQuota))
           = unat quotaTotal - unat quotaAddition"
    by (simp add: CalcQuotaUsed_def ta)
  show ?thesis
    using ok oq by (simp add: u_def)
qed

theorem CalcQuotaUsed_out_of_quota_and_success_witness:
  "unat (21000 :: u64) + unat (10000 :: u64) \<le> unat (100000 :: u64)
   \<and> CalcQuotaUsed 100000 21000 10000 50000 (Some ErrOutOfQuota) = 79000
   \<and> CalcQuotaUsed 100000 21000 10000 50000 None = 34500
   \<and> unat (CalcQuotaUsed 100000 21000 10000 50000 None) = 69000 - min 50000 (69000 div 2)"
  using CalcQuotaUsed_out_of_quota_and_success [of 21000 10000 100000 50000]
  by (simp add: CalcQuotaUsed_def)

section \<open>Properties of the section lookup\<close>

lemma sdiv2_nonneg: "0 \<le> a \<Longrightarrow> a sdiv 2 = a div (2 :: int)"
  by (simp add: signed_divide_int_def sgn_if)

lemma sectionAt_in_range:
  "0 \<le> i \<Longrightarrow> i < int (length sl) \<Longrightarrow> sectionAt sl i = Inr (sl ! nat i)"
  by (simp add: sectionAt_def)


lemma getIndexInSectionRange_largest:
  assumes "sorted_wrt (<) sl"
    and "0 \<le> l" "l \<le> r" "r < int (length sl)"
    and "l = 0 \<or> sl ! nat l \<le> x"
    and "\<forall>j. nat r < j \<and> j < length sl \<longrightarrow> x < sl ! j"
  shows "\<exists>i. getIndexInSectionRange sl x l r = Some (Inr (int i)) \<and> i < length sl
           \<and> (if x < sl ! 0 then i = 0
               else sl ! i \<le> x \<and> (\<forall>j. i < j \<and> j < length sl \<longrightarrow> x < sl ! j))"
  using assms(2-)
proof (induction "nat (r - l)" arbitrary: l r rule: less_induct)
  case less
  have mono: "\<And>i j. i < j \<Longrightarrow> j < length sl \<Longrightarrow> sl ! i < sl ! j"
    using assms(1) by (simp add: sorted_wrt_iff_nth_less)
  have mono0: "\<And>j. j < length sl \<Longrightarrow> sl ! 0 \<le> sl ! j"
  proof -
    fix j assume "j < length sl"
    then show "sl ! 0 \<le> sl ! j"
      using mono [of 0 j] by (cases "j = 0") auto
  qed
  show ?case
  proof (cases "l = r")
    case True
    have at: "sectionAt sl l = Inr (sl ! nat l)"
      using less.prems by (simp add: sectionAt_in_range)
    have unf: "getIndexInSectionRange sl x l r =
                 Some (if sl ! nat l \<le> x \<or> l = 0 then Inr l else Inr (l - 1))"
      using True at by (subst getIndexInSectionRange.simps) (simp add: getExactIndex_def)
    have res: "getIndexInSectionRange sl x l r = Some (Inr (int (nat l)))"
      unfolding unf using less.prems by auto
    have nl: "nat l < length sl" using less.prems by auto
    have post: "if x < sl ! 0 then nat l = 0
                else sl ! nat l \<le> x \<and> (\<forall>j. nat l < j \<and> j < length sl \<longrightarrow> x < sl ! j)"
    proof (cases "x < sl ! 0")
      case True
      then have "\<not> sl ! nat l \<le> x" using mono0 [OF nl] by auto
      with less.prems have "l = 0" by auto
      with True show ?thesis by simp
    next
      case False
      have "sl ! nat l \<le> x" using less.prems(4) False by auto
      with False less.prems(5) \<open>l = r\<close> show ?thesis by auto
    qed
    have "getIndexInSectionRange sl x l r = Some (Inr (int (nat l))) \<and>
          nat l < length sl \<and>
          (if x < sl ! 0 then nat l = 0
           else sl ! nat l \<le> x \<and> (\<forall>j. nat l < j \<and> j < length sl \<longrightarrow> x < sl ! j))"
      using res nl post by simp
    then show ?thesis by (rule exI)
  next
    case False
    define mid where "mid = (l + r + 1) div 2"
    have m: "l < mid" "mid \<le> r" using False less.prems by (auto simp add: mid_def)
    have sd: "(l + r + 1) sdiv 2 = mid"
      using less.prems by (simp add: sdiv2_nonneg mid_def)
    have at: "sectionAt sl mid = Inr (sl ! nat mid)"
      using m less.prems by (simp add: sectionAt_in_range)
    have nm: "nat mid < length sl" using m less.prems by auto
    have unf: "getIndexInSectionRange sl x l r =
                 (if sl ! nat mid = x then Some (Inr mid)
                  else if sl ! nat mid > x then getIndexInSectionRange sl x l (mid - 1)
                  else getIndexInSectionRange sl x mid r)"
      using False by (subst getIndexInSectionRange.simps) (simp add: sd at)
    consider (eq) "sl ! nat mid = x" | (gt) "x < sl ! nat mid" | (lt) "sl ! nat mid < x"
      by fastforce
    then show ?thesis
    proof cases
      case eq
      have res: "getIndexInSectionRange sl x l r = Some (Inr (int (nat mid)))"
        unfolding unf using eq m less.prems by auto
      have "\<not> x < sl ! 0" using mono0 [OF nm] eq by auto
      moreover have "\<forall>j. nat mid < j \<and> j < length sl \<longrightarrow> x < sl ! j"
        using mono eq by auto
      ultimately have "getIndexInSectionRange sl x l r = Some (Inr (int (nat mid))) \<and>
          nat mid < length sl \<and>
          (if x < sl ! 0 then nat mid = 0
           else sl ! nat mid \<le> x \<and> (\<forall>j. nat mid < j \<and> j < length sl \<longrightarrow> x < sl ! j))"
        using res nm eq by simp
      then show ?thesis by (rule exI)
    next
      case gt
      have above: "\<forall>j. nat (mid - 1) < j \<and> j < length sl \<longrightarrow> x < sl ! j"
      proof (intro allI impI)
        fix j assume j: "nat (mid - 1) < j \<and> j < length sl"
        then have "nat mid \<le> j" using m less.prems by auto
        then have "sl ! nat mid \<le> sl ! j"
          using mono [of "nat mid" j] j by (cases "nat mid = j") auto
        with gt show "x < sl ! j" by simp
      qed
      have "\<exists>i. getIndexInSectionRange sl x l (mid - 1) = Some (Inr (int i)) \<and> i < length sl
           \<and> (if x < sl ! 0 then i = 0
               else sl ! i \<le> x \<and> (\<forall>j. i < j \<and> j < length sl \<longrightarrow> x < sl ! j))"
        using m less.prems above by (intro less.hyps) auto
      then show ?thesis unfolding unf using gt by auto
    next
      case lt
      have "\<exists>i. getIndexInSectionRange sl x mid r = Some (Inr (int i)) \<and> i < length sl
           \<and> (if x < sl ! 0 then i = 0
               else sl ! i \<le> x \<and> (\<forall>j. i < j \<and> j < length sl \<longrightarrow> x < sl ! j))"
        using m less.prems lt by (intro less.hyps) auto
      then show ?thesis unfolding unf using lt by auto
    qed
  qed
qed

text \<open>
  Claim C8. For a non-empty, strictly increasing \<open>sectionList\<close>, \<open>getIndexInSection\<close>
  terminates without a panic and returns the largest index \<open>i\<close> with
  \<open>sectionList[i] \<le> x\<close>; when \<open>x\<close> is below \<open>sectionList[0]\<close> no such index exists
  and it returns \<open>0\<close>, the value of \<open>getExactIndex\<close> at index \<open>0\<close>.
\<close>

theorem getIndexInSection_largest_index:
  assumes "sorted_wrt (<) sl" and "sl \<noteq> []"
  shows "\<exists>i. getIndexInSection sl x = Some (Inr (int i)) \<and> i < length sl
           \<and> (if x < sl ! 0 then i = 0
               else sl ! i \<le> x \<and> (\<forall>j < length sl. sl ! j \<le> x \<longrightarrow> j \<le> i))"
proof -
  have r: "0 \<le> int (length sl) - 1" "int (length sl) - 1 < int (length sl)"
    using assms(2) by (auto simp add: Suc_leI)
  have top: "\<forall>j. nat (int (length sl) - 1) < j \<and> j < length sl \<longrightarrow> x < sl ! j"
    by auto
  obtain i where i: "getIndexInSectionRange sl x 0 (int (length sl) - 1) = Some (Inr (int i))"
      "i < length sl"
      "if x < sl ! 0 then i = 0
       else sl ! i \<le> x \<and> (\<forall>j. i < j \<and> j < length sl \<longrightarrow> x < sl ! j)"
    using getIndexInSectionRange_largest [where x = x and l = 0, OF assms(1) order_refl r(1) r(2) _ top]
    by auto
  have "if x < sl ! 0 then i = 0
        else sl ! i \<le> x \<and> (\<forall>j < length sl. sl ! j \<le> x \<longrightarrow> j \<le> i)"
    using i(3) by (auto simp add: not_less [symmetric])
  with i(1,2) show ?thesis
    unfolding getIndexInSection_def by blast
qed

theorem getIndexInSection_largest_index_witness:
  "sorted_wrt (<) [0, 10, 20 :: rat] \<and> [0, 10, 20 :: rat] \<noteq> []
   \<and> (\<exists>i. getIndexInSection [0, 10, 20] 15 = Some (Inr (int i)) \<and> i < length [0, 10, 20 :: rat]
           \<and> (if (15 :: rat) < [0, 10, 20] ! 0 then i = 0
               else [0, 10, 20] ! i \<le> (15 :: rat)
                    \<and> (\<forall>j < length [0, 10, 20 :: rat]. [0, 10, 20] ! j \<le> (15 :: rat) \<longrightarrow> j \<le> i)))"
  using getIndexInSection_largest_index [of "[0, 10, 20]" 15]
  by simp





section \<open>Properties of CalcQuotaV2\<close>


lemma quotaResult_zero: "quotaResult 0 0 quotaUsed = (0, 0)"
  by (cases "quotaUsed = 0") (simp_all add: quotaResult_def word_greater_zero_iff)

lemma calcQuotaV2Final_no_pledge_no_pow:
  assumes "prevBlock = None \<or> pledgeAmount = 0"
  shows "calcQuotaV2Final P db pledgeAmount False d prevBlock quotaUsed = Some (Inr (0, 0))"
  using assms
  by (auto simp add: calcQuotaV2Final_def quotaWithoutPoWStage_def quotaResult_zero
      split: option.splits)

lemma calcQuotaV2Loop_exit:
  assumes "\<not> sameSnapshot db (prevBlockV v)"
  shows "calcQuotaV2Loop P db pledgeAmount isPoW v =
           calcQuotaV2Final P db pledgeAmount isPoW (difficultyForCalcV v) (prevBlockV v)
             (quotaUsedV v)"
  using assms
  by (subst calcQuotaV2Loop.simps) (simp add: sameSnapshot_def split: option.splits)

lemma calcQuotaV2Loop_step:
  assumes "prevBlockV v = Some b" and "Hash (CurrentSnapshotBlock db) = SnapshotHash b"
  shows "calcQuotaV2Loop P db pledgeAmount isPoW v =
           (if BlockType b = BlockTypeReceiveError \<or> IsPoW (Nonce b) then Some (Inr (0, 0))
            else calcQuotaV2Loop P db pledgeAmount isPoW
                   (v\<lparr>flagV := False, quotaUsedV := quotaUsedV v + Quota b,
                      prevBlockV := GetAccountBlockByHash db (PrevHash b)\<rparr>))"
  using assms
  by (subst calcQuotaV2Loop.simps) (simp add: Let_def)

lemma calcQuotaV2Loop_zero_pledge:
  assumes "\<not> sameSnapshot db (walkBack db (prevBlockV v) n)"
  shows "calcQuotaV2Loop P db 0 False v = Some (Inr (0, 0))"
  using assms
proof (induction n arbitrary: v)
  case 0
  then show ?case
    by (simp add: calcQuotaV2Loop_exit calcQuotaV2Final_no_pledge_no_pow)
next
  case (Suc n)
  show ?case
  proof (cases "sameSnapshot db (prevBlockV v)")
    case False
    then show ?thesis
      by (simp add: calcQuotaV2Loop_exit calcQuotaV2Final_no_pledge_no_pow)
  next
    case True
    then obtain b where b: "prevBlockV v = Some b"
        "Hash (CurrentSnapshotBlock db) = SnapshotHash b"
      by (auto simp add: sameSnapshot_def split: option.splits)
    let ?v = "v\<lparr>flagV := False, quotaUsedV := quotaUsedV v + Quota b,
                 prevBlockV := GetAccountBlockByHash db (PrevHash b)\<rparr>"
    have "walkBack db (prevBlockV ?v) n = walkBack db (prevBlockV v) (Suc n)"
      by (simp add: prevOf_def b)
    with Suc.prems have "\<not> sameSnapshot db (walkBack db (prevBlockV ?v) n)"
      by simp
    then have "calcQuotaV2Loop P db 0 False ?v = Some (Inr (0, 0))"
      by (rule Suc.IH)
    then show ?thesis
      by (simp add: calcQuotaV2Loop_step [OF b])
  qed
qed

text \<open>
  Claim C10. A call of \<open>CalcQuotaV2\<close> with difficulty \<open>0\<close> returns \<open>(0, 0)\<close> when the
  account has no previous block, and also when its pledge amount is \<open>0\<close> and the chain of
  previous blocks leaves the current snapshot after finitely many steps (as every ledger's
  chain does, ending at the first block).
\<close>

theorem CalcQuotaV2_no_pow_first_block_or_no_pledge:
  assumes "difficulty = 0"
    and "PrevAccountBlock db = None
         \<or> (GetPledgeBeneficialAmount db addr = 0 \<and> \<not> sameSnapshot db (prevChain db n))"
  shows "CalcQuotaV2 P db addr difficulty = Some (Inr (0, 0))"
proof -
  let ?v = "\<lparr>prevBlockV = PrevAccountBlock db, quotaUsedV = 0, flagV = False,
             difficultyForCalcV = difficulty\<rparr>"
  have unf: "CalcQuotaV2 P db addr difficulty =
               calcQuotaV2Loop P db (GetPledgeBeneficialAmount db addr) False ?v"
    using assms(1) by (simp add: CalcQuotaV2_def)
  from assms(2) show ?thesis
  proof
    assume none: "PrevAccountBlock db = None"
    then have "\<not> sameSnapshot db (prevBlockV ?v)"
      by (simp add: sameSnapshot_def)
    then have "calcQuotaV2Loop P db (GetPledgeBeneficialAmount db addr) False ?v =
                 calcQuotaV2Final P db (GetPledgeBeneficialAmount db addr) False
                   (difficultyForCalcV ?v) (prevBlockV ?v) (quotaUsedV ?v)"
      by (rule calcQuotaV2Loop_exit)
    with none show ?thesis
      unfolding unf by (simp add: calcQuotaV2Final_no_pledge_no_pow)
  next
    assume z: "GetPledgeBeneficialAmount db addr = 0 \<and> \<not> sameSnapshot db (prevChain db n)"
    then have "\<not> sameSnapshot db (walkBack db (prevBlockV ?v) n)"
      by (simp add: prevChain_def)
    then have "calcQuotaV2Loop P db 0 False ?v = Some (Inr (0, 0))"
      by (rule calcQuotaV2Loop_zero_pledge)
    with z show ?thesis
      unfolding unf by simp
  qed
qed

theorem CalcQuotaV2_no_pow_first_block_or_no_pledge_witness:
  "CalcQuotaV2 exampleParams (exampleDb 0 (Some plainBlock)) [] 0 = Some (Inr (0, 0))
   \<and> CalcQuotaV2 exampleParams (exampleDb 1000 None) [] 0 = Some (Inr (0, 0))"
proof -
  have a: "GetPledgeBeneficialAmount (exampleDb 0 (Some plainBlock)) [] = 0
           \<and> \<not> sameSnapshot (exampleDb 0 (Some plainBlock))
                 (prevChain (exampleDb 0 (Some plainBlock)) (Suc 0))"
    by (simp add: exampleDb_def plainBlock_def powBlock_def olderBlock_def sameSnapshot_def
        prevChain_def prevOf_def)
  have b: "PrevAccountBlock (exampleDb 1000 None) = None"
    by (simp add: exampleDb_def)
  show ?thesis
    using CalcQuotaV2_no_pow_first_block_or_no_pledge
            [OF refl disjI2 [OF a], where P = exampleParams]
          CalcQuotaV2_no_pow_first_block_or_no_pledge
            [OF refl disjI1 [OF b], where P = exampleParams and addr = "[]"]
    by simp
qed

lemma quotaOfIndex_example:
  "quotaOfIndex exampleParams 5 = Some (Inr 42000)"
  by (simp add: quotaOfIndex_def exampleParams_def getIndexInSection_def
      getIndexInSectionRange.simps getExactIndex_def sectionAt_def signed_divide_int_def)

lemma CalcQuotaV2_prev_pow_nonce:
  assumes "PrevAccountBlock db = Some b"
    and "Hash (CurrentSnapshotBlock db) = SnapshotHash b"
    and "IsPoW (Nonce b)"
  shows "CalcQuotaV2 P db addr difficulty = Some (Inr (0, 0))"
  using assms
  by (simp add: CalcQuotaV2_def Let_def calcQuotaV2Loop_step [where b = b])

text \<open>
  Claim C1. Quick-fail rule (iii) says that a call without proof of work is not zeroed
  merely because an earlier block of the same snapshot carries a nonce. The code sets
  \<open>flag\<close> to \<open>IsPoW(prevBlock.Nonce)\<close> and then returns \<open>(0, 0)\<close> whenever that flag
  holds, whatever the difficulty: with a pledge worth 42000 and a previous block of the
  same snapshot that used 21000, the call with difficulty \<open>0\<close> returns \<open>(0, 0)\<close> when
  that block carries a nonce and \<open>(21000, 0)\<close> when it does not.
\<close>

theorem CalcQuotaV2_zeroed_by_prior_nonce:
  "CalcQuotaV2 exampleParams (exampleDb 1 (Some powBlock)) [] 0 = Some (Inr (0, 0))
   \<and> CalcQuotaV2 exampleParams (exampleDb 1 (Some plainBlock)) [] 0 = Some (Inr (21000, 0))"
proof -
  have pow: "CalcQuotaV2 exampleParams (exampleDb 1 (Some powBlock)) [] 0 = Some (Inr (0, 0))"
    by (rule CalcQuotaV2_prev_pow_nonce [where b = powBlock])
       (simp_all add: exampleDb_def powBlock_def IsPoW_def)
  have x: "pledgeX exampleParams 5 1 = 5"
    by (simp add: pledgeX_def exampleParams_def)
  have g: "maxQuotaHeightGap exampleParams = 86400"
    by (simp add: exampleParams_def)
  have fin: "calcQuotaV2Final exampleParams (exampleDb 1 (Some plainBlock)) 1 False 0
               (Some olderBlock) 21000 = Some (Inr (21000, 0))"
    by (simp add: calcQuotaV2Final_def quotaWithoutPoWStage_def exampleDb_def olderBlock_def
        Let_def g x quotaOfIndex_example quotaResult_def)
  have f: "PrevAccountBlock (exampleDb 1 (Some plainBlock)) = Some plainBlock"
      "GetPledgeBeneficialAmount (exampleDb 1 (Some plainBlock)) [] = 1"
    by (simp_all add: exampleDb_def)
  have s1: "calcQuotaV2Loop exampleParams (exampleDb 1 (Some plainBlock)) 1 False
              \<lparr>prevBlockV = Some plainBlock, quotaUsedV = 0, flagV = False,
               difficultyForCalcV = 0\<rparr>
            = calcQuotaV2Loop exampleParams (exampleDb 1 (Some plainBlock)) 1 False
              \<lparr>prevBlockV = Some olderBlock, quotaUsedV = 21000, flagV = False,
               difficultyForCalcV = 0\<rparr>"
    by (subst calcQuotaV2Loop_step [where b = plainBlock])
       (simp_all add: exampleDb_def plainBlock_def powBlock_def IsPoW_def)
  have s2: "calcQuotaV2Loop exampleParams (exampleDb 1 (Some plainBlock)) 1 False
              \<lparr>prevBlockV = Some olderBlock, quotaUsedV = 21000, flagV = False,
               difficultyForCalcV = 0\<rparr>
            = calcQuotaV2Final exampleParams (exampleDb 1 (Some plainBlock)) 1 False 0
                (Some olderBlock) 21000"
    by (subst calcQuotaV2Loop_exit)
       (simp_all add: sameSnapshot_def exampleDb_def olderBlock_def)
  have plain: "CalcQuotaV2 exampleParams (exampleDb 1 (Some plainBlock)) [] 0
                 = Some (Inr (21000, 0))"
    by (simp add: CalcQuotaV2_def Let_def f s1 s2 fin)
  from pow plain show ?thesis by simp
qed



section \<open>Properties of the state store facade\<close>

text \<open>
  Claim C9. \<open>GetValue\<close> returns the overlay's value when the overlay holds one for the
  key. When the overlay holds none, it returns what the committed snapshot's own
  \<open>GetValue\<close> returns for the key, and the error of \<open>getPrevStateSnapshot\<close> when the
  snapshot cannot be obtained; \<open>GetOriginalValue\<close> reads the committed snapshot whatever
  the overlay holds, also after a write or a delete of the key. Reading a key just written
  returns what was written; \<open>DeleteValue\<close> is \<open>SetValue\<close> with empty bytes, so after a
  delete the read returns empty bytes whatever the snapshot holds; other keys read as
  before, and no write changes the committed snapshot.
\<close>

theorem vmDb_overlay_shadows_snapshot:
  "GetValue db key =
     (case unsaved db key of
        Some w \<Rightarrow> Inr w
      | None \<Rightarrow> (case getPrevStateSnapshot db of
                   Inl e \<Rightarrow> Inl e
                 | Inr snapshot \<Rightarrow> snapshot key))
   \<and> (unsaved db key = Some w \<longrightarrow> GetValue db key = Inr w)
   \<and> (unsaved db key = None \<and> getPrevStateSnapshot db = Inr prevStateSnapshot \<longrightarrow>
        GetValue db key = prevStateSnapshot key)
   \<and> (unsaved db key = None \<and> getPrevStateSnapshot db = Inl err \<longrightarrow>
        GetValue db key = Inl err)
   \<and> GetOriginalValue db key =
       (case getPrevStateSnapshot db of Inl e \<Rightarrow> Inl e | Inr snapshot \<Rightarrow> snapshot key)
   \<and> GetValue (SetValue db key v) key = Inr v
   \<and> DeleteValue db key = SetValue db key []
   \<and> GetValue (DeleteValue db key) key = Inr []
   \<and> GetValue (SetValue db key v) key' =
       (if key' = key then Inr v else GetValue db key')
   \<and> getPrevStateSnapshot (SetValue db key v) = getPrevStateSnapshot db
   \<and> GetOriginalValue (SetValue db key v) key' = GetOriginalValue db key'
   \<and> GetOriginalValue (DeleteValue db key) key' = GetOriginalValue db key'"
  by (simp add: GetValue_def SetValue_def DeleteValue_def GetOriginalValue_def
      unsavedGetValue_def unsavedSetValue_def split: option.splits sum.splits)

theorem vmDb_overlay_shadows_snapshot_witness:
  "GetValue \<lparr>unsaved = [[1] \<mapsto> [5]],
              getPrevStateSnapshot = Inr (\<lambda>k. if k = [2] then Inr [9] else Inr [])\<rparr> [1]
     = Inr [5]
   \<and> GetValue \<lparr>unsaved = [[1] \<mapsto> [5]],
                getPrevStateSnapshot = Inr (\<lambda>k. if k = [2] then Inr [9] else Inr [])\<rparr> [2]
     = Inr [9]
   \<and> GetValue \<lparr>unsaved = [[1] \<mapsto> [5]], getPrevStateSnapshot = Inl ErrOther\<rparr> [2]
     = Inl ErrOther
   \<and> GetValue (DeleteValue
                 \<lparr>unsaved = [[1] \<mapsto> [5]],
                  getPrevStateSnapshot = Inr (\<lambda>k. if k = [2] then Inr [9] else Inr [])\<rparr> [2])
        [2]
     = Inr []
   \<and> GetOriginalValue (DeleteValue
                 \<lparr>unsaved = [[1] \<mapsto> [5]],
                  getPrevStateSnapshot = Inr (\<lambda>k. if k = [2] then Inr [9] else Inr [])\<rparr> [2])
        [2]
     = Inr [9]"
proof -
  let ?snap = "\<lambda>k :: bytes. if k = [2] then Inr [9] else (Inr [] :: error + bytes)"
  let ?db = "\<lparr>unsaved = [[1 :: byte] \<mapsto> [5 :: byte]], getPrevStateSnapshot = Inr ?snap\<rparr>"
  let ?bad = "\<lparr>unsaved = [[1 :: byte] \<mapsto> [5 :: byte]],
               getPrevStateSnapshot = (Inl ErrOther :: error + (bytes \<Rightarrow> error + bytes))\<rparr>"
  have hit: "unsaved ?db [1] = Some [5]" by simp
  have miss: "unsaved ?db [2] = None \<and> getPrevStateSnapshot ?db = Inr ?snap" by simp
  have fail: "unsaved ?bad [2] = None \<and> getPrevStateSnapshot ?bad = Inl ErrOther" by simp
  from vmDb_overlay_shadows_snapshot [of ?db "[1]" "[5]"] hit
  have 1: "GetValue ?db [1] = Inr [5]" by blast
  from vmDb_overlay_shadows_snapshot [of ?db "[2]" _ ?snap] miss
  have 2: "GetValue ?db [2] = Inr [9]" by simp
  from vmDb_overlay_shadows_snapshot [of ?bad "[2]" _ _ ErrOther] fail
  have 3: "GetValue ?bad [2] = Inl ErrOther" by blast
  from vmDb_overlay_shadows_snapshot [of ?db "[2]"]
  have 4: "GetValue (DeleteValue ?db [2]) [2] = Inr []" by blast
  from vmDb_overlay_shadows_snapshot [of ?db "[2]" _ _ _ _ "[2]"]
  have "GetOriginalValue (DeleteValue ?db [2]) [2] = GetOriginalValue ?db [2]"
    and "GetOriginalValue ?db [2]
           = (case getPrevStateSnapshot ?db of Inl e \<Rightarrow> Inl e | Inr snapshot \<Rightarrow> snapshot [2])"
    by blast+
  then have 5: "GetOriginalValue (DeleteValue ?db [2]) [2] = Inr [9]" by simp
  from 1 2 3 4 5 show ?thesis by simp
qed

section \<open>Properties of the fund contract\<close>

lemma findAccount_asset: "findAccount t f = Some a \<Longrightarrow> asset a = t"
  by (induction f) (auto split: if_splits)

lemma findAccount_putAccount: "findAccount (asset e) (putAccount e f) = Some e"
  by (induction f) auto

lemma findAccount_putAccount_other:
  "t \<noteq> asset e \<Longrightarrow> findAccount t (putAccount e f) = findAccount t f"
  by (induction f) auto

lemma getFund_putFundAccount:
  "getFund (putFundAccount db user e) user = putAccount e (getFund db user)"
  by (simp add: getFund_def putFundAccount_def)

lemma getAccount_putFundAccount:
  "getAccount (putFundAccount db user e) user (asset e) = e"
  by (simp add: getAccount_def getFund_putFundAccount findAccount_putAccount)

lemma asset_getAccount: "asset (getAccount db user t) = t"
  by (auto simp add: getAccount_def dest: findAccount_asset split: option.splits)

lemma findAccount_getFund_putFundAccount:
  "findAccount t (getFund (putFundAccount db user e) user')
     = (if user' = user \<and> t = asset e then Some e else findAccount t (getFund db user'))"
proof (cases "user' = user")
  case True
  then show ?thesis
    by (cases "t = asset e")
       (simp_all add: getFund_putFundAccount findAccount_putAccount findAccount_putAccount_other)
next
  case False
  then show ?thesis
    by (simp add: getFund_def putFundAccount_def)
qed

lemma getAccount_putFundAccount_any:
  "getAccount (putFundAccount db user e) user' t
     = (if user' = user \<and> t = asset e then e else getAccount db user' t)"
  by (simp add: getAccount_def findAccount_getFund_putFundAccount)

lemma applySettleAction_Inr:
  assumes "applySettleAction db act = Inr db1"
  shows "dec_available act
           \<le> available (getAccount db (settle_owner act) (settle_asset act)) + inc_available act"
    and "dec_locked act
           \<le> locked (getAccount db (settle_owner act) (settle_asset act)) + inc_locked act"
    and "db1 = putFundAccount db (settle_owner act)
                 ((getAccount db (settle_owner act) (settle_asset act))
                    \<lparr>available := available (getAccount db (settle_owner act) (settle_asset act))
                                  + inc_available act - dec_available act,
                     locked := locked (getAccount db (settle_owner act) (settle_asset act))
                               + inc_locked act - dec_locked act\<rparr>)"
  using assms by (auto simp add: applySettleAction_def Let_def split: if_splits)

lemma applySettleAction_getAccount:
  assumes "applySettleAction db act = Inr db1"
  shows "getAccount db1 user t
           = (if settleTargets user t act
              then \<lparr>asset = t,
                    available = available (getAccount db user t)
                                + inc_available act - dec_available act,
                    locked = locked (getAccount db user t)
                             + inc_locked act - dec_locked act\<rparr>
              else getAccount db user t)"
proof -
  let ?a = "getAccount db (settle_owner act) (settle_asset act)"
  let ?e = "?a\<lparr>available := available ?a + inc_available act - dec_available act,
               locked := locked ?a + inc_locked act - dec_locked act\<rparr>"
  have db1: "db1 = putFundAccount db (settle_owner act) ?e"
    by (rule applySettleAction_Inr(3) [OF assms])
  have as: "asset ?e = settle_asset act"
    by (simp add: asset_getAccount)
  have e: "?e = \<lparr>asset = settle_asset act,
                 available = available ?a + inc_available act - dec_available act,
                 locked = locked ?a + inc_locked act - dec_locked act\<rparr>"
    using as by (cases ?a) simp
  have "getAccount db1 user t
          = (if user = settle_owner act \<and> t = settle_asset act then ?e
             else getAccount db user t)"
    unfolding db1 by (simp only: getAccount_putFundAccount_any as)
  then show ?thesis
    using e by (auto simp add: settleTargets_def)
qed

lemma applySettleAction_findAccount:
  assumes "applySettleAction db act = Inr db1"
  shows "findAccount (settle_asset act) (getFund db1 (settle_owner act)) \<noteq> None"
    and "findAccount t (getFund db user) \<noteq> None \<Longrightarrow> findAccount t (getFund db1 user) \<noteq> None"
    and "\<not> settleTargets user t act \<Longrightarrow>
           findAccount t (getFund db1 user) = findAccount t (getFund db user)"
  unfolding applySettleAction_Inr(3) [OF assms]
  by (auto simp add: findAccount_getFund_putFundAccount asset_getAccount settleTargets_def)

lemma applySettleAction_mintage:
  assumes "applySettleAction db act = Inr db1"
  shows "mintage db1 = mintage db"
  unfolding applySettleAction_Inr(3) [OF assms]
  by (simp add: putFundAccount_def)

lemma settleTotal_Nil: "settleTotal field user t [] = 0"
  by (simp add: settleTotal_def)

lemma settleTotal_Cons:
  "settleTotal field user t (act # acts)
     = (if settleTargets user t act then field act else 0) + settleTotal field user t acts"
  by (simp add: settleTotal_def)

lemma applySettleActions_Cons_Inr:
  assumes "applySettleActions db (act # acts) = Inr db'"
  obtains db1 where "applySettleAction db act = Inr db1"
    and "applySettleActions db1 acts = Inr db'"
  using assms by (auto split: sum.splits)

lemma applySettleActions_totals:
  "applySettleActions db actions = Inr db' \<Longrightarrow>
     available (getAccount db' user t) + settleTotal dec_available user t actions
       = available (getAccount db user t) + settleTotal inc_available user t actions
     \<and> locked (getAccount db' user t) + settleTotal dec_locked user t actions
       = locked (getAccount db user t) + settleTotal inc_locked user t actions"
proof (induction actions arbitrary: db)
  case Nil
  then show ?case by (simp add: settleTotal_Nil)
next
  case (Cons act acts)
  from Cons.prems obtain db1 where s: "applySettleAction db act = Inr db1"
      and r: "applySettleActions db1 acts = Inr db'"
    by (rule applySettleActions_Cons_Inr)
  note ih = Cons.IH [OF r]
  show ?case
  proof (cases "settleTargets user t act")
    case False
    with applySettleAction_getAccount [OF s, of user t] ih show ?thesis
      by (simp add: settleTotal_Cons)
  next
    case True
    then have o: "settle_owner act = user" "settle_asset act = t"
      by (simp_all add: settleTargets_def)
    from applySettleAction_Inr(1,2) [OF s] o
    have le: "dec_available act \<le> available (getAccount db user t) + inc_available act"
        "dec_locked act \<le> locked (getAccount db user t) + inc_locked act"
      by simp_all
    from applySettleAction_getAccount [OF s, of user t] True
    have a1: "available (getAccount db1 user t)
                = available (getAccount db user t) + inc_available act - dec_available act"
      and l1: "locked (getAccount db1 user t)
                = locked (getAccount db user t) + inc_locked act - dec_locked act"
      by simp_all
    have c: "settleTotal field user t (act # acts) = field act + settleTotal field user t acts"
      for field
      using True by (simp add: settleTotal_Cons)
    from ih have ih1: "available (getAccount db' user t) + settleTotal dec_available user t acts
                         = available (getAccount db1 user t)
                           + settleTotal inc_available user t acts"
      and ih2: "locked (getAccount db' user t) + settleTotal dec_locked user t acts
                  = locked (getAccount db1 user t) + settleTotal inc_locked user t acts"
      by simp_all
    have "available (getAccount db' user t)
            + (dec_available act + settleTotal dec_available user t acts)
          = available (getAccount db user t)
            + (inc_available act + settleTotal inc_available user t acts)"
      using ih1 a1 le(1) by arith
    moreover have "locked (getAccount db' user t)
            + (dec_locked act + settleTotal dec_locked user t acts)
          = locked (getAccount db user t)
            + (inc_locked act + settleTotal inc_locked user t acts)"
      using ih2 l1 le(2) by arith
    ultimately show ?thesis
      by (simp only: c)
  qed
qed

lemma applySettleActions_keeps_entries:
  "applySettleActions db actions = Inr db' \<Longrightarrow> findAccount t (getFund db user) \<noteq> None \<Longrightarrow>
     findAccount t (getFund db' user) \<noteq> None"
proof (induction actions arbitrary: db)
  case Nil
  then show ?case by simp
next
  case (Cons act acts)
  from Cons.prems(1) obtain db1 where s: "applySettleAction db act = Inr db1"
      and r: "applySettleActions db1 acts = Inr db'"
    by (rule applySettleActions_Cons_Inr)
  from Cons.prems(2) have "findAccount t (getFund db1 user) \<noteq> None"
    by (rule applySettleAction_findAccount(2) [OF s])
  with r show ?case by (rule Cons.IH)
qed

lemma applySettleActions_entries:
  "applySettleActions db actions = Inr db' \<Longrightarrow>
     (\<forall>act \<in> set actions.
         findAccount (settle_asset act) (getFund db' (settle_owner act)) \<noteq> None)
     \<and> ((\<forall>act \<in> set actions. \<not> settleTargets user t act) \<longrightarrow>
           findAccount t (getFund db' user) = findAccount t (getFund db user))
     \<and> mintage db' = mintage db"
proof (induction actions arbitrary: db)
  case Nil
  then show ?case by simp
next
  case (Cons act acts)
  from Cons.prems obtain db1 where s: "applySettleAction db act = Inr db1"
      and r: "applySettleActions db1 acts = Inr db'"
    by (rule applySettleActions_Cons_Inr)
  note ih = Cons.IH [OF r]
  show ?case
  proof (intro conjI impI ballI)
    fix x assume "x \<in> set (act # acts)"
    then consider "x = act" | "x \<in> set acts" by auto
    then show "findAccount (settle_asset x) (getFund db' (settle_owner x)) \<noteq> None"
    proof cases
      case 1
      from applySettleActions_keeps_entries [OF r applySettleAction_findAccount(1) [OF s]] 1
      show ?thesis by simp
    next
      case 2
      with ih show ?thesis by blast
    qed
  next
    assume n: "\<forall>x \<in> set (act # acts). \<not> settleTargets user t x"
    then have "findAccount t (getFund db1 user) = findAccount t (getFund db user)"
      using applySettleAction_findAccount(3) [OF s, of user t] by simp
    moreover from n ih have "findAccount t (getFund db' user) = findAccount t (getFund db1 user)"
      by simp
    ultimately show "findAccount t (getFund db' user) = findAccount t (getFund db user)"
      by simp
  next
    from ih applySettleAction_mintage [OF s] show "mintage db' = mintage db" by simp
  qed
qed

lemma applySettleActions_append:
  "applySettleActions db (xs @ ys)
     = (case applySettleActions db xs of Inl e \<Rightarrow> Inl e | Inr db1 \<Rightarrow> applySettleActions db1 ys)"
  by (induction xs arbitrary: db) (auto split: sum.splits)

lemma roundHalfEven_exact:
  assumes "0 < d" and "d dvd n"
  shows "roundHalfEven n d * d = n"
  using assms by (auto simp add: roundHalfEven_def Let_def)

text \<open>
  Claim C4. \<open>UserDeposit\<close> send returns \<open>TokenInvalid\<close>, and no block, when the asset
  is not in the mintage registry; when it is registered the send succeeds and the block
  it returns has the asset as token id, the deposit amount as amount and the fund
  contract as destination.
\<close>

theorem UserDeposit_DoSend_token_check:
  assumes "Data block = Some (UserDeposit beneficiary t amt)"
  shows "(\<not> token_registered db t \<longrightarrow> UserDeposit_DoSend db block = Inl TokenInvalid)
       \<and> (token_registered db t \<longrightarrow>
            (\<exists>block'. UserDeposit_DoSend db block = Inr block'
               \<and> TokenId block' = t \<and> Amount block' = amt
               \<and> ToAddress block' = AddressDexFund
               \<and> AccountAddress block' = AccountAddress block \<and> Data block' = Data block))"
  using assms by (simp add: UserDeposit_DoSend_def)

theorem UserDeposit_DoSend_token_check_witness:
  "UserDeposit_DoSend s1Db (blockFrom userAddress (UserDeposit userAddress ETH 100))
     = Inl TokenInvalid
   \<and> (\<exists>block'. UserDeposit_DoSend s1Db (blockFrom userAddress (UserDeposit userAddress VITE 3000))
                  = Inr block'
         \<and> TokenId block' = VITE \<and> Amount block' = 3000 \<and> ToAddress block' = AddressDexFund)"
proof -
  have e: "\<not> token_registered s1Db ETH" and v: "token_registered s1Db VITE"
    by (simp_all add: token_registered_def s1Db_def VITE_def ETH_def)
  have d: "Data (blockFrom userAddress (UserDeposit userAddress ETH 100))
             = Some (UserDeposit userAddress ETH 100)"
      "Data (blockFrom userAddress (UserDeposit userAddress VITE 3000))
             = Some (UserDeposit userAddress VITE 3000)"
    by (simp_all add: blockFrom_def)
  from UserDeposit_DoSend_token_check [OF d(1), of s1Db]
       UserDeposit_DoSend_token_check [OF d(2), of s1Db] e v
  show ?thesis by blast
qed

text \<open>
  Claim C2. For a \<open>NewOrder\<close> call: after a successful send the payload is an order with
  status \<open>Pending\<close> whose amount is quantity times price rounded half-even to an integer
  (exactly the product whenever the product is an integer); after a successful receive of
  a sell order the owner's entry for the trade asset has \<open>available\<close> decreased and
  \<open>locked\<close> increased by the quantity, and exactly one block is appended, addressed to
  the trade contract.
\<close>

theorem NewOrder_send_normalises_receive_locks:
  assumes "Data block = Some (NewOrder ord)"
  shows "(NewOrder_DoSend nextOrderId db block = Inr block' \<longrightarrow>
            (\<exists>ord'. Data block' = Some (NewOrder ord') \<and> status ord' = Pending
               \<and> amount ord' = roundHalfEven (quantity ord * price ord) priceScale
               \<and> (priceScale dvd quantity ord * price ord \<longrightarrow>
                    amount ord' * priceScale = quantity ord * price ord)))
       \<and> (side ord \<and> NewOrder_DoReceive db receiveBlock block = Inr (db', appended) \<longrightarrow>
            (\<exists>a. findAccount (trade_asset ord) (getFund db (owner_address ord)) = Some a
               \<and> quantity ord \<le> available a
               \<and> getAccount db' (owner_address ord) (trade_asset ord)
                    = a\<lparr>available := available a - quantity ord,
                        locked := locked a + quantity ord\<rparr>)
            \<and> (\<exists>b. appended = [b] \<and> ToAddress b = AddressDexTrade
                     \<and> AccountAddress b = AddressDexFund))"
proof (intro conjI impI)
  assume s: "NewOrder_DoSend nextOrderId db block = Inr block'"
  let ?ord = "ord\<lparr>amount := orderAmount ord, status := Pending,
                  timestamp := Timestamp block, order_id := nextOrderId\<rparr>"
  from s assms have d: "Data block' = Some (NewOrder ?ord)"
    by (auto simp add: NewOrder_DoSend_def split: if_splits)
  have ex: "priceScale dvd quantity ord * price ord \<longrightarrow>
              amount ?ord * priceScale = quantity ord * price ord"
    by (simp add: orderAmount_def roundHalfEven_exact priceScale_def)
  have "Data block' = Some (NewOrder ?ord) \<and> status ?ord = Pending
          \<and> amount ?ord = roundHalfEven (quantity ord * price ord) priceScale
          \<and> (priceScale dvd quantity ord * price ord \<longrightarrow>
                amount ?ord * priceScale = quantity ord * price ord)"
    using d ex by (simp add: orderAmount_def)
  then show "\<exists>ord'. Data block' = Some (NewOrder ord') \<and> status ord' = Pending
               \<and> amount ord' = roundHalfEven (quantity ord * price ord) priceScale
               \<and> (priceScale dvd quantity ord * price ord \<longrightarrow>
                    amount ord' * priceScale = quantity ord * price ord)"
    by (rule exI)
next
  assume r: "side ord \<and> NewOrder_DoReceive db receiveBlock block = Inr (db', appended)"
  then obtain a where a: "findAccount (trade_asset ord) (getFund db (owner_address ord)) = Some a"
      and le: "quantity ord \<le> available a"
      and db': "db' = putFundAccount db (owner_address ord)
                        (a\<lparr>available := available a - quantity ord,
                           locked := locked a + quantity ord\<rparr>)"
    using assms
    by (auto simp add: NewOrder_DoReceive_def lockAsset_def lockAmount_def
        split: option.splits if_splits)
  have as: "asset a = trade_asset ord"
    using a by (rule findAccount_asset)
  have "getAccount db' (owner_address ord) (trade_asset ord)
          = a\<lparr>available := available a - quantity ord, locked := locked a + quantity ord\<rparr>"
    unfolding db'
    using getAccount_putFundAccount
            [of db "owner_address ord"
                "a\<lparr>available := available a - quantity ord,
                   locked := locked a + quantity ord\<rparr>"]
    by (simp add: as)
  with a le
  show "\<exists>a. findAccount (trade_asset ord) (getFund db (owner_address ord)) = Some a
               \<and> quantity ord \<le> available a
               \<and> getAccount db' (owner_address ord) (trade_asset ord)
                    = a\<lparr>available := available a - quantity ord,
                        locked := locked a + quantity ord\<rparr>"
    by blast
next
  assume r: "side ord \<and> NewOrder_DoReceive db receiveBlock block = Inr (db', appended)"
  then show "\<exists>b. appended = [b] \<and> ToAddress b = AddressDexTrade
                     \<and> AccountAddress b = AddressDexFund"
    using assms
    by (auto simp add: NewOrder_DoReceive_def split: option.splits if_splits)
qed

theorem NewOrder_send_normalises_receive_locks_witness:
  "NewOrder_DoSend 1 s3Db (blockFrom userAddress (NewOrder s3Order))
     = Inr (blockFrom userAddress
              (NewOrder (s3Order\<lparr>amount := 60, status := Pending, timestamp := 0,
                                order_id := 1\<rparr>)))
   \<and> NewOrder_DoReceive s3Db receiveBlock0
         (blockFrom userAddress
            (NewOrder (s3Order\<lparr>amount := 60, status := Pending, timestamp := 0,
                              order_id := 1\<rparr>)))
       = Inr (putFundAccount s3Db userAddress \<lparr>asset = VITE, available = 800, locked = 2000\<rparr>,
              [\<lparr>AccountAddress = AddressDexFund, ToAddress = AddressDexTrade, TokenId = [],
                Amount = 0,
                Data = Some (NewOrder (s3Order\<lparr>amount := 60, status := Pending,
                                               timestamp := 0, order_id := 1\<rparr>)),
                Timestamp = 1000\<rparr>])
   \<and> getFund (putFundAccount s3Db userAddress \<lparr>asset = VITE, available = 800, locked = 2000\<rparr>)
         userAddress
       = [\<lparr>asset = VITE, available = 800, locked = 2000\<rparr>]
   \<and> getAccount (putFundAccount s3Db userAddress
                    \<lparr>asset = VITE, available = 800, locked = 2000\<rparr>) userAddress VITE
       = \<lparr>asset = VITE, available = 2800 - 2000, locked = 0 + 2000\<rparr>"
proof -
  let ?sent = "s3Order\<lparr>amount := 60, status := Pending, timestamp := 0, order_id := 1\<rparr>"
  let ?db = "putFundAccount s3Db userAddress \<lparr>asset = VITE, available = 800, locked = 2000\<rparr>"
  have reg: "token_registered s3Db VITE" "token_registered s3Db ETH" "VITE \<noteq> ETH"
    by (simp_all add: token_registered_def s3Db_def VITE_def ETH_def)
  have amt: "orderAmount s3Order = 60"
    by (simp add: orderAmount_def s3Order_def roundHalfEven_def priceScale_def Let_def)
  have send: "NewOrder_DoSend 1 s3Db (blockFrom userAddress (NewOrder s3Order))
                = Inr (blockFrom userAddress (NewOrder ?sent))"
    using reg by (simp add: NewOrder_DoSend_def blockFrom_def amt) (simp add: s3Order_def)
  have f: "getFund s3Db userAddress = [\<lparr>asset = VITE, available = 2800, locked = 0\<rparr>]"
    by (simp add: getFund_def s3Db_def)
  have recv: "NewOrder_DoReceive s3Db receiveBlock0 (blockFrom userAddress (NewOrder ?sent))
                = Inr (?db,
                       [\<lparr>AccountAddress = AddressDexFund, ToAddress = AddressDexTrade,
                         TokenId = [], Amount = 0, Data = Some (NewOrder ?sent),
                         Timestamp = 1000\<rparr>])"
    by (simp add: NewOrder_DoReceive_def blockFrom_def receiveBlock0_def lockAsset_def
        lockAmount_def f s3Order_def)
  have d: "Data (blockFrom userAddress (NewOrder ?sent)) = Some (NewOrder ?sent)"
    by (simp add: blockFrom_def)
  have sd: "side ?sent" "owner_address ?sent = userAddress" "trade_asset ?sent = VITE"
      "quantity ?sent = 2000"
    by (simp_all add: s3Order_def)
  have fund: "getFund ?db userAddress = [\<lparr>asset = VITE, available = 800, locked = 2000\<rparr>]"
    by (simp add: getFund_putFundAccount f)
  from NewOrder_send_normalises_receive_locks
         [OF d, where db = s3Db and receiveBlock = receiveBlock0 and db' = ?db] recv sd f
  have "getAccount ?db userAddress VITE
          = \<lparr>asset = VITE, available = 2800 - 2000, locked = 0 + 2000\<rparr>"
    by auto
  with send recv fund show ?thesis by simp
qed

text \<open>
  Claim C3. A \<open>SettleOrders\<close> receive that succeeds has applied every action of the
  envelope, in order, each to the storage left by the actions before it: the action's
  target entry, located or created with zero balances, gets \<open>available\<close> increased by
  \<open>inc_available\<close> and decreased by \<open>dec_available\<close>, and \<open>locked\<close> increased by
  \<open>inc_locked\<close> and decreased by \<open>dec_locked\<close>, neither going below zero. So for every
  user and asset the balances after the receive are the balances before it plus the
  increments and minus the decrements of all the actions of the envelope that target that
  user and asset; every targeted entry exists afterwards, an entry that no action targets
  is left as it was, and the token registry is untouched.
\<close>

theorem SettleOrders_DoReceive_applies_deltas:
  assumes "Data sendBlock = Some (SettleOrders actions)"
    and "SettleOrders_DoReceive db sendBlock = Inr db'"
  shows "available (getAccount db' user t) + settleTotal dec_available user t actions
           = available (getAccount db user t) + settleTotal inc_available user t actions
       \<and> locked (getAccount db' user t) + settleTotal dec_locked user t actions
           = locked (getAccount db user t) + settleTotal inc_locked user t actions
       \<and> (\<forall>act \<in> set actions.
             findAccount (settle_asset act) (getFund db' (settle_owner act)) \<noteq> None)
       \<and> ((\<forall>act \<in> set actions. \<not> settleTargets user t act) \<longrightarrow>
             findAccount t (getFund db' user) = findAccount t (getFund db user))
       \<and> mintage db' = mintage db
       \<and> (\<forall>before act after. actions = before @ act # after \<longrightarrow>
             (\<exists>db1 db2. applySettleActions db before = Inr db1
                \<and> applySettleAction db1 act = Inr db2
                \<and> applySettleActions db2 after = Inr db'
                \<and> dec_available act
                    \<le> available (getAccount db1 (settle_owner act) (settle_asset act))
                      + inc_available act
                \<and> dec_locked act
                    \<le> locked (getAccount db1 (settle_owner act) (settle_asset act))
                      + inc_locked act
                \<and> getAccount db2 (settle_owner act) (settle_asset act)
                    = \<lparr>asset = settle_asset act,
                       available = available (getAccount db1 (settle_owner act) (settle_asset act))
                                   + inc_available act - dec_available act,
                       locked = locked (getAccount db1 (settle_owner act) (settle_asset act))
                                + inc_locked act - dec_locked act\<rparr>))"
proof -
  from assms have r: "applySettleActions db actions = Inr db'"
    by (simp add: SettleOrders_DoReceive_def)
  have steps: "\<forall>before act after. actions = before @ act # after \<longrightarrow>
             (\<exists>db1 db2. applySettleActions db before = Inr db1
                \<and> applySettleAction db1 act = Inr db2
                \<and> applySettleActions db2 after = Inr db'
                \<and> dec_available act
                    \<le> available (getAccount db1 (settle_owner act) (settle_asset act))
                      + inc_available act
                \<and> dec_locked act
                    \<le> locked (getAccount db1 (settle_owner act) (settle_asset act))
                      + inc_locked act
                \<and> getAccount db2 (settle_owner act) (settle_asset act)
                    = \<lparr>asset = settle_asset act,
                       available = available (getAccount db1 (settle_owner act) (settle_asset act))
                                   + inc_available act - dec_available act,
                       locked = locked (getAccount db1 (settle_owner act) (settle_asset act))
                                + inc_locked act - dec_locked act\<rparr>)"
  proof (intro allI impI)
    fix before act after
    assume split: "actions = before @ act # after"
    from r split obtain db1 where b: "applySettleActions db before = Inr db1"
        and rest: "applySettleActions db1 (act # after) = Inr db'"
      by (auto simp add: applySettleActions_append split: sum.splits)
    from rest obtain db2 where s: "applySettleAction db1 act = Inr db2"
        and a: "applySettleActions db2 after = Inr db'"
      by (rule applySettleActions_Cons_Inr)
    have t: "settleTargets (settle_owner act) (settle_asset act) act"
      by (simp add: settleTargets_def)
    from applySettleAction_getAccount [OF s, of "settle_owner act" "settle_asset act"] t
    have g: "getAccount db2 (settle_owner act) (settle_asset act)
               = \<lparr>asset = settle_asset act,
                  available = available (getAccount db1 (settle_owner act) (settle_asset act))
                              + inc_available act - dec_available act,
                  locked = locked (getAccount db1 (settle_owner act) (settle_asset act))
                           + inc_locked act - dec_locked act\<rparr>"
      by simp
    from b s a applySettleAction_Inr(1,2) [OF s] g
    show "\<exists>db1 db2. applySettleActions db before = Inr db1
                \<and> applySettleAction db1 act = Inr db2
                \<and> applySettleActions db2 after = Inr db'
                \<and> dec_available act
                    \<le> available (getAccount db1 (settle_owner act) (settle_asset act))
                      + inc_available act
                \<and> dec_locked act
                    \<le> locked (getAccount db1 (settle_owner act) (settle_asset act))
                      + inc_locked act
                \<and> getAccount db2 (settle_owner act) (settle_asset act)
                    = \<lparr>asset = settle_asset act,
                       available = available (getAccount db1 (settle_owner act) (settle_asset act))
                                   + inc_available act - dec_available act,
                       locked = locked (getAccount db1 (settle_owner act) (settle_asset act))
                                + inc_locked act - dec_locked act\<rparr>"
      by blast
  qed
  from applySettleActions_totals [OF r, of user t]
       applySettleActions_entries [OF r, of user t] steps
  show ?thesis by blast
qed

theorem SettleOrders_DoReceive_applies_deltas_witness:
  "SettleOrders_DoSend s4Db (blockFrom AddressDexTrade (SettleOrders s4Actions))
     = Inr (blockFrom AddressDexTrade (SettleOrders s4Actions))
   \<and> findAccount ETH (getFund s4Db userAddress) = None
   \<and> SettleOrders_DoReceive s4Db (blockFrom AddressDexTrade (SettleOrders s4Actions))
       = Inr (putFundAccount
                (putFundAccount s4Db userAddress
                   \<lparr>asset = VITE, available = 800, locked = 1000\<rparr>)
                userAddress \<lparr>asset = ETH, available = 30, locked = 0\<rparr>)
   \<and> getFund (putFundAccount
                (putFundAccount s4Db userAddress
                   \<lparr>asset = VITE, available = 800, locked = 1000\<rparr>)
                userAddress \<lparr>asset = ETH, available = 30, locked = 0\<rparr>) userAddress
       = [\<lparr>asset = VITE, available = 800, locked = 1000\<rparr>,
          \<lparr>asset = ETH, available = 30, locked = 0\<rparr>]
   \<and> settleTotal dec_locked userAddress VITE s4Actions = 1000
   \<and> settleTotal inc_available userAddress ETH s4Actions = 30
   \<and> locked (getAccount
                (putFundAccount
                   (putFundAccount s4Db userAddress
                      \<lparr>asset = VITE, available = 800, locked = 1000\<rparr>)
                   userAddress \<lparr>asset = ETH, available = 30, locked = 0\<rparr>) userAddress VITE)
         + 1000 = 2000
   \<and> available (getAccount
                (putFundAccount
                   (putFundAccount s4Db userAddress
                      \<lparr>asset = VITE, available = 800, locked = 1000\<rparr>)
                   userAddress \<lparr>asset = ETH, available = 30, locked = 0\<rparr>) userAddress ETH)
       = 30
   \<and> findAccount ''NANO TOKEN''
         (getFund (putFundAccount
                (putFundAccount s4Db userAddress
                   \<lparr>asset = VITE, available = 800, locked = 1000\<rparr>)
                userAddress \<lparr>asset = ETH, available = 30, locked = 0\<rparr>) userAddress)
       = None
   \<and> SettleOrders_DoReceive s4Db (blockFrom AddressDexTrade (SettleOrders s4Actions3))
       = Inr (putFundAccount
                (putFundAccount
                   (putFundAccount s4Db userAddress
                      \<lparr>asset = VITE, available = 800, locked = 1000\<rparr>)
                   userAddress \<lparr>asset = ETH, available = 30, locked = 0\<rparr>)
                userAddress \<lparr>asset = VITE, available = 1300, locked = 500\<rparr>)
   \<and> getFund (putFundAccount
                (putFundAccount
                   (putFundAccount s4Db userAddress
                      \<lparr>asset = VITE, available = 800, locked = 1000\<rparr>)
                   userAddress \<lparr>asset = ETH, available = 30, locked = 0\<rparr>)
                userAddress \<lparr>asset = VITE, available = 1300, locked = 500\<rparr>) userAddress
       = [\<lparr>asset = VITE, available = 1300, locked = 500\<rparr>,
          \<lparr>asset = ETH, available = 30, locked = 0\<rparr>]
   \<and> available (getAccount
                (putFundAccount
                   (putFundAccount
                      (putFundAccount s4Db userAddress
                         \<lparr>asset = VITE, available = 800, locked = 1000\<rparr>)
                      userAddress \<lparr>asset = ETH, available = 30, locked = 0\<rparr>)
                   userAddress \<lparr>asset = VITE, available = 1300, locked = 500\<rparr>)
                userAddress VITE)
       = 800 + 500
   \<and> locked (getAccount
                (putFundAccount
                   (putFundAccount
                      (putFundAccount s4Db userAddress
                         \<lparr>asset = VITE, available = 800, locked = 1000\<rparr>)
                      userAddress \<lparr>asset = ETH, available = 30, locked = 0\<rparr>)
                   userAddress \<lparr>asset = VITE, available = 1300, locked = 500\<rparr>)
                userAddress VITE)
         + 1500 = 2000
   \<and> getAccount (putFundAccount
                   (putFundAccount s4Db userAddress
                      \<lparr>asset = VITE, available = 800, locked = 1000\<rparr>)
                   userAddress \<lparr>asset = ETH, available = 30, locked = 0\<rparr>) userAddress ETH
       = \<lparr>asset = ETH, available = 0 + 30 - 0, locked = 0 + 0 - 0\<rparr>"
proof -
  let ?vite = "\<lparr>settle_owner = userAddress, settle_asset = VITE, inc_available = 0,
                dec_available = 0, inc_locked = 0, dec_locked = 1000\<rparr>"
  let ?eth = "\<lparr>settle_owner = userAddress, settle_asset = ETH, inc_available = 30,
               dec_available = 0, inc_locked = 0, dec_locked = 0\<rparr>"
  let ?third = "\<lparr>settle_owner = userAddress, settle_asset = VITE, inc_available = 500,
                 dec_available = 0, inc_locked = 0, dec_locked = 500\<rparr>"
  let ?db1 = "putFundAccount s4Db userAddress \<lparr>asset = VITE, available = 800, locked = 1000\<rparr>"
  let ?db2 = "putFundAccount ?db1 userAddress \<lparr>asset = ETH, available = 30, locked = 0\<rparr>"
  let ?db3 = "putFundAccount ?db2 userAddress \<lparr>asset = VITE, available = 1300, locked = 500\<rparr>"
  let ?send = "blockFrom AddressDexTrade (SettleOrders s4Actions)"
  let ?send3 = "blockFrom AddressDexTrade (SettleOrders s4Actions3)"
  have ne: "VITE \<noteq> ETH" "ETH \<noteq> VITE" "''NANO TOKEN'' \<noteq> VITE" "''NANO TOKEN'' \<noteq> ETH"
    by (simp_all add: VITE_def ETH_def)
  have f0: "getFund s4Db userAddress = [\<lparr>asset = VITE, available = 800, locked = 2000\<rparr>]"
    by (simp add: getFund_def s4Db_def)
  have f1: "getFund ?db1 userAddress = [\<lparr>asset = VITE, available = 800, locked = 1000\<rparr>]"
    by (simp add: getFund_putFundAccount f0)
  have f2: "getFund ?db2 userAddress
              = [\<lparr>asset = VITE, available = 800, locked = 1000\<rparr>,
                 \<lparr>asset = ETH, available = 30, locked = 0\<rparr>]"
    using ne by (simp add: getFund_putFundAccount f0)
  have f3: "getFund ?db3 userAddress
              = [\<lparr>asset = VITE, available = 1300, locked = 500\<rparr>,
                 \<lparr>asset = ETH, available = 30, locked = 0\<rparr>]"
    using ne by (simp add: getFund_putFundAccount f0)
  have a1: "applySettleAction s4Db ?vite = Inr ?db1"
    by (simp add: applySettleAction_def getAccount_def f0)
  have a2: "applySettleAction ?db1 ?eth = Inr ?db2"
    using ne by (simp add: applySettleAction_def getAccount_def f1)
  have a3: "applySettleAction ?db2 ?third = Inr ?db3"
    using ne by (simp add: applySettleAction_def getAccount_def f2)
  have all: "applySettleActions s4Db s4Actions = Inr ?db2"
    by (simp add: s4Actions_def a1 a2)
  have all3: "applySettleActions s4Db s4Actions3 = Inr ?db3"
    by (simp add: s4Actions3_def s4Actions_def a1 a2 a3)
  have d: "Data ?send = Some (SettleOrders s4Actions)"
      and d3: "Data ?send3 = Some (SettleOrders s4Actions3)"
    by (simp_all add: blockFrom_def)
  have recv: "SettleOrders_DoReceive s4Db ?send = Inr ?db2"
    by (simp add: SettleOrders_DoReceive_def d all)
  have recv3: "SettleOrders_DoReceive s4Db ?send3 = Inr ?db3"
    by (simp add: SettleOrders_DoReceive_def d3 all3)
  have snd: "SettleOrders_DoSend s4Db ?send = Inr ?send"
    by (simp add: SettleOrders_DoSend_def blockFrom_def)
  have none: "findAccount ETH (getFund s4Db userAddress) = None"
      "findAccount ''NANO TOKEN'' (getFund s4Db userAddress) = None"
    using ne by (simp_all add: f0)
  have acc0: "getAccount s4Db userAddress VITE = \<lparr>asset = VITE, available = 800, locked = 2000\<rparr>"
      "getAccount s4Db userAddress ETH = \<lparr>asset = ETH, available = 0, locked = 0\<rparr>"
    using ne by (simp_all add: getAccount_def f0)
  have tot: "settleTotal dec_locked userAddress VITE s4Actions = 1000"
      "settleTotal inc_locked userAddress VITE s4Actions = 0"
      "settleTotal inc_available userAddress ETH s4Actions = 30"
      "settleTotal dec_available userAddress ETH s4Actions = 0"
    using ne by (simp_all add: settleTotal_def settleTargets_def s4Actions_def)
  have tot3: "settleTotal dec_locked userAddress VITE s4Actions3 = 1500"
      "settleTotal inc_locked userAddress VITE s4Actions3 = 0"
      "settleTotal inc_available userAddress VITE s4Actions3 = 500"
      "settleTotal dec_available userAddress VITE s4Actions3 = 0"
    using ne
    by (simp_all add: settleTotal_def settleTargets_def s4Actions3_def s4Actions_def)
  have untargeted: "\<forall>act \<in> set s4Actions. \<not> settleTargets userAddress ''NANO TOKEN'' act"
    using ne by (simp add: settleTargets_def s4Actions_def)
  from SettleOrders_DoReceive_applies_deltas [OF d recv, of userAddress VITE] acc0 tot
  have r1: "locked (getAccount ?db2 userAddress VITE) + 1000 = 2000"
    by simp
  from SettleOrders_DoReceive_applies_deltas [OF d recv, of userAddress ETH] acc0 tot
  have r2: "available (getAccount ?db2 userAddress ETH) = 30"
    by simp
  from SettleOrders_DoReceive_applies_deltas [OF d recv, of userAddress "''NANO TOKEN''"]
       untargeted none
  have r3: "findAccount ''NANO TOKEN'' (getFund ?db2 userAddress) = None"
    by simp
  from SettleOrders_DoReceive_applies_deltas [OF d3 recv3, of userAddress VITE] acc0 tot3
  have r4: "available (getAccount ?db3 userAddress VITE) = 800 + 500"
      and r5: "locked (getAccount ?db3 userAddress VITE) + 1500 = 2000"
    by simp_all
  have split: "s4Actions = [?vite] @ ?eth # []"
    by (simp add: s4Actions_def)
  have acc1: "getAccount ?db1 userAddress ETH = \<lparr>asset = ETH, available = 0, locked = 0\<rparr>"
    using ne by (simp add: getAccount_def f1)
  from SettleOrders_DoReceive_applies_deltas [OF d recv, of userAddress ETH] split
  obtain db1 db2 where b: "applySettleActions s4Db [?vite] = Inr db1"
      and rest: "applySettleActions db2 [] = Inr ?db2"
      and g: "getAccount db2 (settle_owner ?eth) (settle_asset ?eth)
                = \<lparr>asset = settle_asset ?eth,
                   available = available (getAccount db1 (settle_owner ?eth) (settle_asset ?eth))
                               + inc_available ?eth - dec_available ?eth,
                   locked = locked (getAccount db1 (settle_owner ?eth) (settle_asset ?eth))
                            + inc_locked ?eth - dec_locked ?eth\<rparr>"
    by blast
  from b have e1: "db1 = ?db1" by (simp add: a1)
  from rest have e2: "db2 = ?db2" by simp
  from g have r6: "getAccount ?db2 userAddress ETH
                     = \<lparr>asset = ETH, available = 0 + 30 - 0, locked = 0 + 0 - 0\<rparr>"
    unfolding e1 e2 by (simp add: acc1)
  from snd none(1) recv f2 tot(1,3) r1 r2 r3 recv3 f3 r4 r5 r6 show ?thesis
    by (intro conjI)
qed

lemma S1_deposit_then_withdraw:
  "UserDeposit_DoReceive s1Db (blockFrom userAddress (UserDeposit userAddress VITE 3000))
     = Inr (putFundAccount s1Db userAddress \<lparr>asset = VITE, available = 3000, locked = 0\<rparr>)"
  "UserWithdraw_DoSend s1Db (blockFrom userAddress (UserWithdraw userAddress VITE 200))
     = Inr (blockFrom userAddress (UserWithdraw userAddress VITE 200))"
  "UserWithdraw_DoReceive
     (putFundAccount s1Db userAddress \<lparr>asset = VITE, available = 3000, locked = 0\<rparr>)
     receiveBlock0 (blockFrom userAddress (UserWithdraw userAddress VITE 200))
     = Inr (putFundAccount
              (putFundAccount s1Db userAddress \<lparr>asset = VITE, available = 3000, locked = 0\<rparr>)
              userAddress \<lparr>asset = VITE, available = 2800, locked = 0\<rparr>,
            [\<lparr>AccountAddress = AddressDexFund, ToAddress = userAddress, TokenId = VITE,
              Amount = 200, Data = None, Timestamp = 1000\<rparr>])"
  "getFund (putFundAccount
              (putFundAccount s1Db userAddress \<lparr>asset = VITE, available = 3000, locked = 0\<rparr>)
              userAddress \<lparr>asset = VITE, available = 2800, locked = 0\<rparr>) userAddress
     = getFund s3Db userAddress"
  by (simp_all add: UserDeposit_DoReceive_def UserWithdraw_DoSend_def UserWithdraw_DoReceive_def
      blockFrom_def receiveBlock0_def getAccount_def getFund_putFundAccount
      token_registered_def)
     (simp_all add: getFund_def s1Db_def s3Db_def)

end
